theory Spec2Isabelle
  imports Complex_Main
begin

section \<open>Window planner (cli/utils.ts)\<close>

text \<open>
  \<^verbatim>\<open>export type TimeWindow = { from: number; to: number }\<close>.
  The hours reach the planner through \<^verbatim>\<open>parseIntegerString\<close>, so they are
  integers.
\<close>

record TimeWindow =
  from_hour :: int
  to_hour :: int

text \<open>
  \<^verbatim>\<open>
  export function buildWindows(timeFrom, timeTo, windowHours): TimeWindow[] {
    const windows: TimeWindow[] = [];
    for (let from = timeFrom; from < timeTo; from += windowHours) {
      windows.push({ from, to: Math.min(from + windowHours, timeTo) });
    }
    return windows;
  }
  \<close>
  The loop does not end when \<open>windowHours \<le> 0\<close> and \<open>timeFrom < timeTo\<close>; the model
  returns \<open>None\<close> exactly there.
\<close>

partial_function (option) buildWindowsLoop ::
  "int \<Rightarrow> int \<Rightarrow> int \<Rightarrow> TimeWindow list \<Rightarrow> TimeWindow list option" where
  "buildWindowsLoop from timeTo windowHours windows =
     (if from < timeTo
      then buildWindowsLoop (from + windowHours) timeTo windowHours
             (windows @ [\<lparr>from_hour = from, to_hour = min (from + windowHours) timeTo\<rparr>])
      else Some windows)"

definition buildWindows :: "int \<Rightarrow> int \<Rightarrow> int \<Rightarrow> TimeWindow list option" where
  "buildWindows timeFrom timeTo windowHours = buildWindowsLoop timeFrom timeTo windowHours []"

text \<open>
  The planner as the specification words it: stride from \<open>fromHour\<close> in steps of
  \<open>windowSizeHours\<close>, the end of each window clamped to \<open>toHour\<close>.
\<close>

definition strideCount :: "int \<Rightarrow> int \<Rightarrow> int \<Rightarrow> nat" where
  "strideCount fromHour toHour windowSizeHours =
     nat ((toHour - fromHour + windowSizeHours - 1) div windowSizeHours)"

definition strideWindow :: "int \<Rightarrow> int \<Rightarrow> int \<Rightarrow> nat \<Rightarrow> TimeWindow" where
  "strideWindow fromHour toHour windowSizeHours i =
     \<lparr>from_hour = fromHour + int i * windowSizeHours,
      to_hour = min (fromHour + (int i + 1) * windowSizeHours) toHour\<rparr>"

definition strideWindows :: "int \<Rightarrow> int \<Rightarrow> int \<Rightarrow> TimeWindow list" where
  "strideWindows fromHour toHour windowSizeHours =
     map (strideWindow fromHour toHour windowSizeHours)
       [0 ..< strideCount fromHour toHour windowSizeHours]"

section \<open>Strings (common/string.ts)\<close>

text \<open>
  A JavaScript string is a sequence of UTF-16 code units. The regular expressions of
  \<^verbatim>\<open>normalize\<close> carry no \<^verbatim>\<open>u\<close> flag, so they read the string code unit by code unit.
  A code unit is modelled by its number; \<open>ascii\<close> writes a literal.
\<close>

type_synonym jsstring = "nat list"

definition ascii :: "string \<Rightarrow> jsstring" where
  "ascii s = map of_char s"

text \<open>
  \<^verbatim>\<open>String.prototype.toLowerCase\<close> and \<^verbatim>\<open>String.prototype.normalize('NFKD')\<close> belong to
  the JavaScript engine, not to the repository: they are parameters of the model.
\<close>

record jsEngine =
  toLowerCase :: "jsstring \<Rightarrow> jsstring"
  normalizeNFKD :: "jsstring \<Rightarrow> jsstring"

text \<open>Character classes of the regular expressions.\<close>

definition isLineTerminator :: "nat \<Rightarrow> bool" where
  \<comment> \<open>what \<^verbatim>\<open>.\<close> does not match: LF, CR, U+2028, U+2029\<close>
  "isLineTerminator c \<longleftrightarrow> c = 0x0A \<or> c = 0x0D \<or> c = 0x2028 \<or> c = 0x2029"

definition isWordChar :: "nat \<Rightarrow> bool" where
  \<comment> \<open>\<^verbatim>\<open>\w\<close>, which decides \<^verbatim>\<open>\b\<close>: \<^verbatim>\<open>[A-Za-z0-9_]\<close>\<close>
  "isWordChar c \<longleftrightarrow>
     (0x41 \<le> c \<and> c \<le> 0x5A) \<or> (0x61 \<le> c \<and> c \<le> 0x7A) \<or> (0x30 \<le> c \<and> c \<le> 0x39) \<or> c = 0x5F"

definition isCombiningMark :: "nat \<Rightarrow> bool" where
  \<comment> \<open>\<^verbatim>\<open>[\u0300-\u036f]\<close>\<close>
  "isCombiningMark c \<longleftrightarrow> 0x300 \<le> c \<and> c \<le> 0x36F"

definition isLowerAlnum :: "nat \<Rightarrow> bool" where
  \<comment> \<open>\<^verbatim>\<open>[a-z0-9]\<close>\<close>
  "isLowerAlnum c \<longleftrightarrow> (0x61 \<le> c \<and> c \<le> 0x7A) \<or> (0x30 \<le> c \<and> c \<le> 0x39)"

definition isWhiteSpace :: "nat \<Rightarrow> bool" where
  \<comment> \<open>what \<^verbatim>\<open>trim\<close> strips: WhiteSpace and LineTerminator of ECMAScript\<close>
  "isWhiteSpace c \<longleftrightarrow>
     c = 0x09 \<or> c = 0x0A \<or> c = 0x0B \<or> c = 0x0C \<or> c = 0x0D \<or> c = 0x20 \<or> c = 0xA0
     \<or> c = 0x1680 \<or> (0x2000 \<le> c \<and> c \<le> 0x200A) \<or> c = 0x2028 \<or> c = 0x2029
     \<or> c = 0x202F \<or> c = 0x205F \<or> c = 0x3000 \<or> c = 0xFEFF"

text \<open>\<^verbatim>\<open>.replace(/[\u0300-\u036f]/g, '')\<close>\<close>

definition stripCombiningMarks :: "jsstring \<Rightarrow> jsstring" where
  "stripCombiningMarks s = filter (\<lambda>c. \<not> isCombiningMark c) s"

text \<open>
  \<^verbatim>\<open>.replace(/\(.*?\)|\[.*?\]/g, ' ')\<close>.
  \<open>lazyUntil close s\<close> is the lazy \<^verbatim>\<open>.*?\<close> followed by the closing character, run on
  the input after the opening one: it tries the closing character first and lets
  \<^verbatim>\<open>.\<close> take one more code unit (never a line terminator) otherwise. It returns the
  input left after the match.
\<close>

fun lazyUntil :: "nat \<Rightarrow> jsstring \<Rightarrow> jsstring option" where
  "lazyUntil close [] = None"
| "lazyUntil close (x # xs) =
     (if x = close then Some xs
      else if isLineTerminator x then None
      else lazyUntil close xs)"

definition matchBracket :: "jsstring \<Rightarrow> jsstring option" where
  "matchBracket s =
     (case s of
        [] \<Rightarrow> None
      | x # xs \<Rightarrow>
          (if x = 0x28 then lazyUntil 0x29 xs
           else if x = 0x5B then lazyUntil 0x5D xs
           else None))"

lemma lazyUntil_shorter: "lazyUntil close xs = Some rest \<Longrightarrow> length rest < Suc (length xs)"
  by (induction xs) (auto split: if_splits)

lemma matchBracket_shorter: "matchBracket (x # xs) = Some rest \<Longrightarrow> length rest < Suc (length xs)"
  by (auto simp: matchBracket_def split: if_splits dest: lazyUntil_shorter)

function replaceBrackets :: "jsstring \<Rightarrow> jsstring" where
  "replaceBrackets [] = []"
| "replaceBrackets (x # xs) =
     (case matchBracket (x # xs) of
        Some rest \<Rightarrow> 0x20 # replaceBrackets rest
      | None \<Rightarrow> x # replaceBrackets xs)"
  by pat_completeness auto
termination
  by (relation "measure length") (auto dest: matchBracket_shorter)

text \<open>
  \<^verbatim>\<open>.replace(/\bfeat\.?\b.*$/gi, ' ')\<close> and \<^verbatim>\<open>.replace(/\bft\.?\b.*$/gi, ' ')\<close>.
  \<^verbatim>\<open>\b\<close> holds between two positions exactly one of which is a word character; outside
  the string there is none. With the \<^verbatim>\<open>i\<close> flag a letter of the pattern matches itself
  and its upper-case form, both word characters: the \<^verbatim>\<open>\b\<close> after the word is
  decided with the pattern's last letter.
\<close>

definition wordCharAt :: "nat option \<Rightarrow> bool" where
  "wordCharAt c = (case c of None \<Rightarrow> False | Some x \<Rightarrow> isWordChar x)"

definition wordBoundary :: "nat option \<Rightarrow> nat option \<Rightarrow> bool" where
  "wordBoundary before after \<longleftrightarrow> wordCharAt before \<noteq> wordCharAt after"

definition headOption :: "'a list \<Rightarrow> 'a option" where
  "headOption s = (case s of [] \<Rightarrow> None | x # _ \<Rightarrow> Some x)"

fun matchIgnoreCase :: "jsstring \<Rightarrow> jsstring \<Rightarrow> jsstring option" where
  "matchIgnoreCase [] s = Some s"
| "matchIgnoreCase (p # ps) [] = None"
| "matchIgnoreCase (p # ps) (x # xs) =
     (if x = p \<or> x + 0x20 = p then matchIgnoreCase ps xs else None)"

definition dotStarToEnd :: "jsstring \<Rightarrow> bool" where
  \<comment> \<open>\<^verbatim>\<open>.*$\<close> without the \<^verbatim>\<open>m\<close> flag: the rest of the input, free of line terminators\<close>
  "dotStarToEnd s \<longleftrightarrow> list_all (\<lambda>c. \<not> isLineTerminator c) s"

definition matchClauseTail :: "nat \<Rightarrow> jsstring \<Rightarrow> bool" where
  \<comment> \<open>\<^verbatim>\<open>\.?\b.*$\<close> behind the word: first with the dot taken, then without it\<close>
  "matchClauseTail lastLetter rest \<longleftrightarrow>
     (case rest of
        [] \<Rightarrow> wordBoundary (Some lastLetter) None
      | c # rest' \<Rightarrow>
          (c = 0x2E \<and> wordBoundary (Some 0x2E) (headOption rest') \<and> dotStarToEnd rest')
          \<or> (wordBoundary (Some lastLetter) (Some c) \<and> dotStarToEnd rest))"

definition matchClause :: "jsstring \<Rightarrow> nat option \<Rightarrow> jsstring \<Rightarrow> bool" where
  \<comment> \<open>\<^verbatim>\<open>\bWORD\.?\b.*$\<close> at one position, \<open>before\<close> the code unit in front of it\<close>
  "matchClause word before s \<longleftrightarrow>
     wordBoundary before (headOption s) \<and>
     (case matchIgnoreCase word s of
        None \<Rightarrow> False
      | Some rest \<Rightarrow> matchClauseTail (last word) rest)"

fun removeClause :: "jsstring \<Rightarrow> nat option \<Rightarrow> jsstring \<Rightarrow> jsstring" where
  "removeClause word before [] = []"
| "removeClause word before (x # xs) =
     (if matchClause word before (x # xs) then [0x20]
      else x # removeClause word (Some x) xs)"

text \<open>\<^verbatim>\<open>.replace(/[^a-z0-9]+/g, ' ')\<close>\<close>

function collapseNonAlnum :: "jsstring \<Rightarrow> jsstring" where
  "collapseNonAlnum [] = []"
| "collapseNonAlnum (x # xs) =
     (if isLowerAlnum x then x # collapseNonAlnum xs
      else 0x20 # collapseNonAlnum (dropWhile (\<lambda>c. \<not> isLowerAlnum c) xs))"
  by pat_completeness auto
termination
  by (relation "measure length") (auto simp: length_dropWhile_le less_Suc_eq_le)

text \<open>\<^verbatim>\<open>.trim()\<close>\<close>

definition trim :: "jsstring \<Rightarrow> jsstring" where
  "trim s = rev (dropWhile isWhiteSpace (rev (dropWhile isWhiteSpace s)))"

text \<open>
  \<^verbatim>\<open>
  export function normalize(value: string): string {
    return value
      .toLowerCase()
      .normalize('NFKD')
      .replace(/[\u0300-\u036f]/g, '')
      .replace(/\(.*?\)|\[.*?\]/g, ' ')
      .replace(/\bfeat\.?\b.*$/gi, ' ')
      .replace(/\bft\.?\b.*$/gi, ' ')
      .replace(/[^a-z0-9]+/g, ' ')
      .trim();
  }
  export function buildSongKey(artist: string, title: string): string {
    return `${normalize(artist)}|${normalize(title)}`;
  }
  \<close>
\<close>

definition decompose :: "jsEngine \<Rightarrow> jsstring \<Rightarrow> jsstring" where
  \<comment> \<open>the first three steps of \<open>normalize\<close>\<close>
  "decompose js v = stripCombiningMarks (normalizeNFKD js (toLowerCase js v))"

definition canonicalize :: "jsstring \<Rightarrow> jsstring" where
  \<comment> \<open>the last five steps of \<open>normalize\<close>\<close>
  "canonicalize s =
     trim (collapseNonAlnum
       (removeClause (ascii ''ft'') None
         (removeClause (ascii ''feat'') None
           (replaceBrackets s))))"

definition normalize :: "jsEngine \<Rightarrow> jsstring \<Rightarrow> jsstring" where
  "normalize js v = canonicalize (decompose js v)"

definition buildSongKey :: "jsEngine \<Rightarrow> jsstring \<Rightarrow> jsstring \<Rightarrow> jsstring" where
  "buildSongKey js artist title = normalize js artist @ ascii ''|'' @ normalize js title"

text \<open>
  An engine for the examples. Modelled from the Unicode character database, for
  strings of code units below \<open>0x100\<close> (Basic Latin and Latin-1 Supplement): there
  \<^verbatim>\<open>toLowerCase\<close> works code unit by code unit, and NFKD replaces each code unit by its
  decomposition (no two marks meet, so nothing is reordered). Code units from
  \<open>0x100\<close> on are left as they are, which is not what an engine does for all of
  them; the examples do not use them.
\<close>

definition latin1Lower :: "nat \<Rightarrow> nat" where
  "latin1Lower c =
     (if (0x41 \<le> c \<and> c \<le> 0x5A) \<or> (0xC0 \<le> c \<and> c \<le> 0xDE \<and> c \<noteq> 0xD7) then c + 0x20 else c)"

definition accents6 :: "nat list" where
  \<comment> \<open>grave, acute, circumflex, tilde, diaeresis, ring above\<close>
  "accents6 = [0x300, 0x301, 0x302, 0x303, 0x308, 0x30A]"

definition accents4 :: "nat list" where
  \<comment> \<open>grave, acute, circumflex, diaeresis\<close>
  "accents4 = [0x300, 0x301, 0x302, 0x308]"

definition latin1Decomposition :: "nat \<Rightarrow> jsstring" where
  "latin1Decomposition c =
     (if c = 0xA0 then [0x20]
      else if c = 0xA8 then [0x20, 0x308]
      else if c = 0xAA then [0x61]
      else if c = 0xAF then [0x20, 0x304]
      else if c = 0xB2 then [0x32]
      else if c = 0xB3 then [0x33]
      else if c = 0xB4 then [0x20, 0x301]
      else if c = 0xB5 then [0x3BC]
      else if c = 0xB8 then [0x20, 0x327]
      else if c = 0xB9 then [0x31]
      else if c = 0xBA then [0x6F]
      else if c = 0xBC then [0x31, 0x2044, 0x34]
      else if c = 0xBD then [0x31, 0x2044, 0x32]
      else if c = 0xBE then [0x33, 0x2044, 0x34]
      else if 0xC0 \<le> c \<and> c \<le> 0xC5 then [0x41, accents6 ! (c - 0xC0)]
      else if c = 0xC7 then [0x43, 0x327]
      else if 0xC8 \<le> c \<and> c \<le> 0xCB then [0x45, accents4 ! (c - 0xC8)]
      else if 0xCC \<le> c \<and> c \<le> 0xCF then [0x49, accents4 ! (c - 0xCC)]
      else if c = 0xD1 then [0x4E, 0x303]
      else if 0xD2 \<le> c \<and> c \<le> 0xD6 then [0x4F, accents6 ! (c - 0xD2)]
      else if 0xD9 \<le> c \<and> c \<le> 0xDC then [0x55, accents4 ! (c - 0xD9)]
      else if c = 0xDD then [0x59, 0x301]
      else if 0xE0 \<le> c \<and> c \<le> 0xE5 then [0x61, accents6 ! (c - 0xE0)]
      else if c = 0xE7 then [0x63, 0x327]
      else if 0xE8 \<le> c \<and> c \<le> 0xEB then [0x65, accents4 ! (c - 0xE8)]
      else if 0xEC \<le> c \<and> c \<le> 0xEF then [0x69, accents4 ! (c - 0xEC)]
      else if c = 0xF1 then [0x6E, 0x303]
      else if 0xF2 \<le> c \<and> c \<le> 0xF6 then [0x6F, accents6 ! (c - 0xF2)]
      else if 0xF9 \<le> c \<and> c \<le> 0xFC then [0x75, accents4 ! (c - 0xF9)]
      else if c = 0xFD then [0x79, 0x301]
      else if c = 0xFF then [0x79, 0x308]
      else [c])"

definition latin1Engine :: jsEngine where
  "latin1Engine =
     \<lparr>toLowerCase = map latin1Lower,
      normalizeNFKD = (\<lambda>s. concat (map latin1Decomposition s))\<rparr>"









section \<open>Candidate disambiguation (cli/index.ts, chooseBestTrack)\<close>

text \<open>
  \<^verbatim>\<open>
  export type ScrapedSong = { playedAt: string; rawLabel: string; artist: string;
                              title: string; sourceUrl: string };
  export type SpotifyArtist = { name: string };
  export type SpotifyTrack = { id: string; uri: string; name: string;
    artists: SpotifyArtist[]; popularity: number;
    album: { album_type: string; name: string } };
  \<close>
  The code reads \<^verbatim>\<open>track.popularity ?? 0\<close>, so a missing popularity is a value of
  the model (\<open>None\<close>). JavaScript numbers are modelled by exact rationals: the title,
  artist and release points are small integers, and only the popularity quotient and
  the last sum are rounded by the engine.
\<close>

datatype error = Error string

record ScrapedSong =
  playedAt :: jsstring
  rawLabel :: jsstring
  artist :: jsstring
  title :: jsstring
  sourceUrl :: jsstring

record SpotifyArtist =
  artist_name :: jsstring

record SpotifyAlbum =
  album_type :: jsstring
  album_name :: jsstring

record SpotifyTrack =
  track_id :: jsstring
  uri :: jsstring
  track_name :: jsstring
  artists :: "SpotifyArtist list"
  popularity :: "rat option"
  album :: SpotifyAlbum

record ScoredCandidate =
  track :: SpotifyTrack
  score :: rat

text \<open>\<^verbatim>\<open>String.prototype.includes\<close>: the argument occurs as a run of code units.\<close>

fun startsWith :: "jsstring \<Rightarrow> jsstring \<Rightarrow> bool" where
  "startsWith s [] = True"
| "startsWith [] (y # ys) = False"
| "startsWith (x # xs) (y # ys) = (x = y \<and> startsWith xs ys)"

fun stringIncludes :: "jsstring \<Rightarrow> jsstring \<Rightarrow> bool" where
  "stringIncludes [] sub = (sub = [])"
| "stringIncludes (x # xs) sub = (startsWith (x # xs) sub \<or> stringIncludes xs sub)"

text \<open>
  \<^verbatim>\<open>
  const scored = candidates.map((track) => {
    const trackTitle = normalize(track.name);
    const trackArtists = track.artists
      .map((artist) => normalize(artist.name))
      .filter((artist) => artist.length > 0);
    let score = 0;
    if (trackTitle === expectedTitle) {
      score += 120;
    } else if (trackTitle.includes(expectedTitle) || expectedTitle.includes(trackTitle)) {
      score += 75;
    }
    if (expectedArtist) {
      const hasArtistMatch = trackArtists.some(
        (artist) =>
          artist === expectedArtist ||
          artist.includes(expectedArtist) ||
          expectedArtist.includes(artist),
      );
      if (hasArtistMatch) {
        score += 100;
      }
    }
    if (track.album.album_type === 'album') {
      score += 28;
    }
    if (track.album.album_type === 'single') {
      score -= 12;
    }
    score += Math.min(track.popularity ?? 0, 100) / 15;
    return { track, score };
  });
  \<close>
\<close>

definition scoreCandidate :: "jsEngine \<Rightarrow> jsstring \<Rightarrow> jsstring \<Rightarrow> SpotifyTrack \<Rightarrow> ScoredCandidate" where
  "scoreCandidate js expectedTitle expectedArtist t =
     (let trackTitle = normalize js (track_name t);
          trackArtists = filter (\<lambda>a. length a > 0)
                           (map (\<lambda>a. normalize js (artist_name a)) (artists t));
          score0 = 0;
          score1 = (if trackTitle = expectedTitle then score0 + 120
                    else if stringIncludes trackTitle expectedTitle \<or> stringIncludes expectedTitle trackTitle
                    then score0 + 75
                    else score0);
          score2 = (if expectedArtist \<noteq> []
                    then (let hasArtistMatch =
                                list_ex (\<lambda>a. a = expectedArtist \<or> stringIncludes a expectedArtist
                                               \<or> stringIncludes expectedArtist a) trackArtists
                          in if hasArtistMatch then score1 + 100 else score1)
                    else score1);
          score3 = (if album_type (album t) = ascii ''album'' then score2 + 28 else score2);
          score4 = (if album_type (album t) = ascii ''single'' then score3 - 12 else score3);
          score5 = score4 + min (case popularity t of None \<Rightarrow> 0 | Some p \<Rightarrow> p) 100 / 15
      in \<lparr>track = t, score = score5\<rparr>)"

text \<open>
  \<^verbatim>\<open>
  if (scored.length === 0) { throw new Error('No candidate tracks available to score.'); }
  const sortedByScore = scored.toSorted((a, b) => b.score - a.score);
  const best = sortedByScore[0];
  if (!best) { throw new Error('No scored tracks available.'); }
  const bestAlbumCandidate = sortedByScore.find(
    (candidate) => candidate.track.album.album_type === 'album');
  if (bestAlbumCandidate && best.track.album.album_type === 'single' &&
      bestAlbumCandidate.score >= best.score - 12) {
    return bestAlbumCandidate.track;
  }
  return best.track;
  \<close>
  \<^verbatim>\<open>toSorted\<close> is a stable sort; with this comparator it orders by descending score,
  which is the stable insertion sort of the library on the negated score.
\<close>

definition pickBest :: "ScoredCandidate list \<Rightarrow> error + SpotifyTrack" where
  "pickBest scored =
     (if length scored = 0 then Inl (Error ''No candidate tracks available to score.'')
      else
        (let sortedByScore = sort_key (\<lambda>c. - score c) scored in
         case sortedByScore of
           [] \<Rightarrow> Inl (Error ''No scored tracks available.'')
         | best # _ \<Rightarrow>
             (case find (\<lambda>candidate. album_type (album (track candidate)) = ascii ''album'')
                     sortedByScore of
                Some bestAlbumCandidate \<Rightarrow>
                  if album_type (album (track best)) = ascii ''single''
                     \<and> score bestAlbumCandidate \<ge> score best - 12
                  then Inr (track bestAlbumCandidate)
                  else Inr (track best)
              | None \<Rightarrow> Inr (track best))))"

definition chooseBestTrack :: "jsEngine \<Rightarrow> ScrapedSong \<Rightarrow> SpotifyTrack list \<Rightarrow> error + SpotifyTrack" where
  "chooseBestTrack js song candidates =
     (let expectedTitle = normalize js (title song);
          expectedArtist = normalize js (artist song);
          scored = map (scoreCandidate js expectedTitle expectedArtist) candidates
      in pickBest scored)"

text \<open>
  The scoring and the choice as the specification words them. \<open>claimedArtistPoints\<close>
  is the artist rule as the claim has it, over all artist names of the candidate;
  \<open>artistPoints\<close> counts only the names that do not normalize to the empty string.
\<close>

definition titlePoints :: "jsstring \<Rightarrow> jsstring \<Rightarrow> rat" where
  "titlePoints expectedTitle trackTitle =
     (if trackTitle = expectedTitle then 120
      else if stringIncludes trackTitle expectedTitle \<or> stringIncludes expectedTitle trackTitle then 75
      else 0)"

definition nameMatches :: "jsstring \<Rightarrow> jsstring \<Rightarrow> bool" where
  "nameMatches expectedArtist a \<longleftrightarrow>
     a = expectedArtist \<or> stringIncludes a expectedArtist \<or> stringIncludes expectedArtist a"

definition claimedArtistPoints :: "jsstring \<Rightarrow> jsstring list \<Rightarrow> rat" where
  "claimedArtistPoints expectedArtist names =
     (if expectedArtist \<noteq> [] \<and> (\<exists>a \<in> set names. nameMatches expectedArtist a) then 100 else 0)"

definition artistPoints :: "jsstring \<Rightarrow> jsstring list \<Rightarrow> rat" where
  "artistPoints expectedArtist names =
     (if expectedArtist \<noteq> [] \<and> (\<exists>a \<in> set names. a \<noteq> [] \<and> nameMatches expectedArtist a)
      then 100 else 0)"

definition releasePoints :: "jsstring \<Rightarrow> rat" where
  "releasePoints albumType =
     (if albumType = ascii ''album'' then 28 else if albumType = ascii ''single'' then -12 else 0)"

definition popularityPoints :: "rat option \<Rightarrow> rat" where
  "popularityPoints p = min (case p of None \<Rightarrow> 0 | Some v \<Rightarrow> v) 100 / 15"

definition claimedScore :: "jsEngine \<Rightarrow> ScrapedSong \<Rightarrow> SpotifyTrack \<Rightarrow> rat" where
  "claimedScore js song t =
     titlePoints (normalize js (title song)) (normalize js (track_name t))
     + claimedArtistPoints (normalize js (artist song))
         (map (\<lambda>a. normalize js (artist_name a)) (artists t))
     + releasePoints (album_type (album t))
     + popularityPoints (popularity t)"

definition specScore :: "jsEngine \<Rightarrow> ScrapedSong \<Rightarrow> SpotifyTrack \<Rightarrow> rat" where
  "specScore js song t =
     titlePoints (normalize js (title song)) (normalize js (track_name t))
     + artistPoints (normalize js (artist song))
         (map (\<lambda>a. normalize js (artist_name a)) (artists t))
     + releasePoints (album_type (album t))
     + popularityPoints (popularity t)"

definition isAlbum :: "ScoredCandidate \<Rightarrow> bool" where
  "isAlbum c \<longleftrightarrow> album_type (album (track c)) = ascii ''album''"

definition isSingle :: "ScoredCandidate \<Rightarrow> bool" where
  "isSingle c \<longleftrightarrow> album_type (album (track c)) = ascii ''single''"

definition highestScoring :: "ScoredCandidate list \<Rightarrow> ScoredCandidate option" where
  \<comment> \<open>the first candidate no other candidate outscores\<close>
  "highestScoring cs = find (\<lambda>c. list_all (\<lambda>d. score d \<le> score c) cs) cs"

definition preferAlbum :: "ScoredCandidate list \<Rightarrow> SpotifyTrack option" where
  "preferAlbum cs =
     (case highestScoring cs of
        None \<Rightarrow> None
      | Some best \<Rightarrow>
          (case highestScoring (filter isAlbum cs) of
             None \<Rightarrow> Some (track best)
           | Some bestAlbum \<Rightarrow>
               if isSingle best \<and> score best - 12 \<le> score bestAlbum
               then Some (track bestAlbum)
               else Some (track best)))"

text \<open>Inputs for the examples.\<close>

definition waterloo :: ScrapedSong where
  "waterloo =
     \<lparr>playedAt = ascii ''07:15'', rawLabel = ascii ''ABBA - Waterloo'', artist = ascii ''ABBA'',
      title = ascii ''Waterloo'', sourceUrl = ascii ''https://www.odsluchane.eu/szukaj.php''\<rparr>"

definition waterlooSingle :: SpotifyTrack where
  "waterlooSingle =
     \<lparr>track_id = ascii ''s1'', uri = ascii ''spotify:track:s1'', track_name = ascii ''Waterloo'',
      artists = [\<lparr>artist_name = ascii ''ABBA''\<rparr>], popularity = Some 60,
      album = \<lparr>album_type = ascii ''single'', album_name = ascii ''Waterloo''\<rparr>\<rparr>"

definition waterlooAlbum :: SpotifyTrack where
  "waterlooAlbum =
     \<lparr>track_id = ascii ''a1'', uri = ascii ''spotify:track:a1'',
      track_name = ascii ''Waterloo - Remastered'',
      artists = [\<lparr>artist_name = ascii ''ABBA''\<rparr>], popularity = Some 45,
      album = \<lparr>album_type = ascii ''album'', album_name = ascii ''Gold''\<rparr>\<rparr>"

definition waterlooCover :: SpotifyTrack where
  \<comment> \<open>by the band whose name is three exclamation marks\<close>
  "waterlooCover =
     \<lparr>track_id = ascii ''c1'', uri = ascii ''spotify:track:c1'', track_name = ascii ''Waterloo'',
      artists = [\<lparr>artist_name = ascii ''!!!''\<rparr>], popularity = Some 50,
      album = \<lparr>album_type = ascii ''album'', album_name = ascii ''Covers''\<rparr>\<rparr>"

section \<open>Resilient request layer (common/fetch.ts)\<close>

text \<open>
  A JavaScript number, as far as this file needs it: \<^verbatim>\<open>Number(header)\<close> may be
  \<^verbatim>\<open>NaN\<close> or infinite. Finite values are exact rationals.
\<close>

datatype jsnumber = Finite rat | PosInf | NegInf | NaN

definition isNaN :: "jsnumber \<Rightarrow> bool" where
  "isNaN x \<longleftrightarrow> x = NaN"

fun timesFinite :: "jsnumber \<Rightarrow> rat \<Rightarrow> jsnumber" where
  \<comment> \<open>\<^verbatim>\<open>x * c\<close> for a finite \<open>c > 0\<close>\<close>
  "timesFinite (Finite q) c = Finite (q * c)"
| "timesFinite PosInf c = PosInf"
| "timesFinite NegInf c = NegInf"
| "timesFinite NaN c = NaN"

fun minusFinite :: "jsnumber \<Rightarrow> rat \<Rightarrow> jsnumber" where
  \<comment> \<open>\<^verbatim>\<open>x - c\<close> for a finite \<open>c\<close>\<close>
  "minusFinite (Finite q) c = Finite (q - c)"
| "minusFinite PosInf c = PosInf"
| "minusFinite NegInf c = NegInf"
| "minusFinite NaN c = NaN"

fun maxFinite :: "jsnumber \<Rightarrow> rat \<Rightarrow> jsnumber" where
  \<comment> \<open>\<^verbatim>\<open>Math.max(x, c)\<close> for a finite \<open>c\<close>\<close>
  "maxFinite (Finite q) c = Finite (max q c)"
| "maxFinite PosInf c = PosInf"
| "maxFinite NegInf c = Finite c"
| "maxFinite NaN c = NaN"

fun greaterFinite :: "jsnumber \<Rightarrow> rat \<Rightarrow> bool" where
  \<comment> \<open>\<^verbatim>\<open>x > c\<close> for a finite \<open>c\<close>\<close>
  "greaterFinite (Finite q) c = (q > c)"
| "greaterFinite PosInf c = True"
| "greaterFinite NegInf c = False"
| "greaterFinite NaN c = False"

text \<open>
  \<^verbatim>\<open>
  const MIN_RETRY_AFTER_MS = 1500;
  const MAX_RETRY_AFTER_MS = 10_000;
  const BACKOFF_STEP_MS = 1500;
  const DEFAULT_RETRY_ATTEMPTS = 4;
  \<close>
\<close>

definition MIN_RETRY_AFTER_MS :: rat where "MIN_RETRY_AFTER_MS = 1500"
definition MAX_RETRY_AFTER_MS :: rat where "MAX_RETRY_AFTER_MS = 10000"
definition BACKOFF_STEP_MS :: rat where "BACKOFF_STEP_MS = 1500"

text \<open>
  A response, as far as the retry policy reads it, and what is thrown.
  \<^verbatim>\<open>class RetryableFetchError extends Error { readonly delayMs: number; ... }\<close>
\<close>

record Response =
  status :: nat
  headers :: "string \<Rightarrow> jsstring option"

datatype thrown = RetryableFetchError jsnumber string | OtherError string

datatype fetchOutcome = Responded Response | Rejected string

text \<open>
  What the function does not contain: \<^verbatim>\<open>fetch\<close> (with its timeout signal),
  \<^verbatim>\<open>Number\<close>, \<^verbatim>\<open>Date.parse\<close> and \<^verbatim>\<open>Date.now\<close>. The outcome of \<^verbatim>\<open>fetch\<close> and the clock
  depend on the attempt.
\<close>

record fetchWorld =
  fetch :: "nat \<Rightarrow> fetchOutcome"
  toNumber :: "jsstring \<Rightarrow> jsnumber"
  dateParse :: "jsstring \<Rightarrow> jsnumber"
  dateNow :: "nat \<Rightarrow> rat"

datatype fetchEvent = Fetched nat | Delayed jsnumber

text \<open>
  \<^verbatim>\<open>
  function getRetryAfterMilliseconds(response: Response): number {
    const retryAfterHeader = response.headers.get('retry-after');
    if (!retryAfterHeader) { return MIN_RETRY_AFTER_MS; }
    const seconds = Number(retryAfterHeader);
    if (!Number.isNaN(seconds)) { return Math.max(seconds * 1000, MIN_RETRY_AFTER_MS); }
    const timestamp = Date.parse(retryAfterHeader);
    if (Number.isNaN(timestamp)) { return MIN_RETRY_AFTER_MS; }
    return Math.max(timestamp - Date.now(), MIN_RETRY_AFTER_MS);
  }
  function getBackoffDelayMilliseconds(attempt: number): number {
    return Math.max(attempt * BACKOFF_STEP_MS, MIN_RETRY_AFTER_MS);
  }
  \<close>
\<close>

definition getRetryAfterMilliseconds :: "fetchWorld \<Rightarrow> nat \<Rightarrow> Response \<Rightarrow> jsnumber" where
  "getRetryAfterMilliseconds w currentAttempt response =
     (case headers response ''retry-after'' of
        None \<Rightarrow> Finite MIN_RETRY_AFTER_MS
      | Some retryAfterHeader \<Rightarrow>
          if retryAfterHeader = [] then Finite MIN_RETRY_AFTER_MS
          else
            (let seconds = toNumber w retryAfterHeader in
             if \<not> isNaN seconds then maxFinite (timesFinite seconds 1000) MIN_RETRY_AFTER_MS
             else
               (let timestamp = dateParse w retryAfterHeader in
                if isNaN timestamp then Finite MIN_RETRY_AFTER_MS
                else maxFinite (minusFinite timestamp (dateNow w currentAttempt))
                       MIN_RETRY_AFTER_MS)))"

definition getBackoffDelayMilliseconds :: "nat \<Rightarrow> jsnumber" where
  "getBackoffDelayMilliseconds n = Finite (max (of_nat n * BACKOFF_STEP_MS) MIN_RETRY_AFTER_MS)"

text \<open>
  The function handed to \<^verbatim>\<open>retry\<close>. It shares \<^verbatim>\<open>attempt\<close> and \<^verbatim>\<open>nextDelayMs\<close> with
  the \<^verbatim>\<open>delay\<close> callback. A \<^verbatim>\<open>throw\<close> inside its \<^verbatim>\<open>try\<close> lands in its own \<^verbatim>\<open>catch\<close>.
  \<^verbatim>\<open>
  const currentAttempt = attempt;
  attempt += 1;
  const isLastAttempt = currentAttempt >= totalAttempts - 1;
  try {
    const response = await fetch(url, { ...init, signal });
    if (response.status === 429 && !isLastAttempt) {
      const retryAfterMs = getRetryAfterMilliseconds(response);
      if (retryAfterMs > MAX_RETRY_AFTER_MS) { return response; }
      nextDelayMs = retryAfterMs;
      throw new RetryableFetchError(nextDelayMs, 'Rate-limited by upstream service.');
    }
    if (response.status >= 500 && !isLastAttempt) {
      nextDelayMs = getBackoffDelayMilliseconds(currentAttempt + 1);
      throw new RetryableFetchError(nextDelayMs, 'Upstream service returned a server error.');
    }
    return response;
  } catch (error) {
    if (isLastAttempt) { throw error; }
    if (error instanceof RetryableFetchError) { throw error; }
    nextDelayMs = getBackoffDelayMilliseconds(currentAttempt + 1);
    throw new RetryableFetchError(nextDelayMs, 'Network request failed.');
  }
  \<close>
\<close>

record retryState =
  attempt :: nat
  nextDelayMs :: jsnumber

definition catchBlock :: "bool \<Rightarrow> nat \<Rightarrow> retryState \<Rightarrow> thrown \<Rightarrow> retryState \<times> (thrown + Response)" where
  "catchBlock isLastAttempt currentAttempt st e =
     (if isLastAttempt then (st, Inl e)
      else
        (case e of
           RetryableFetchError d m \<Rightarrow> (st, Inl e)
         | OtherError m \<Rightarrow>
             (let st' = st\<lparr>nextDelayMs := getBackoffDelayMilliseconds (currentAttempt + 1)\<rparr>
              in (st', Inl (RetryableFetchError (nextDelayMs st') ''Network request failed.'')))))"

definition attemptOnce :: "fetchWorld \<Rightarrow> int \<Rightarrow> retryState \<Rightarrow> retryState \<times> (thrown + Response)" where
  "attemptOnce w totalAttempts st0 =
     (let currentAttempt = attempt st0;
          st = st0\<lparr>attempt := currentAttempt + 1\<rparr>;
          isLastAttempt = (int currentAttempt \<ge> totalAttempts - 1)
      in case fetch w currentAttempt of
           Rejected m \<Rightarrow> catchBlock isLastAttempt currentAttempt st (OtherError m)
         | Responded response \<Rightarrow>
             if status response = 429 \<and> \<not> isLastAttempt then
               (let retryAfterMs = getRetryAfterMilliseconds w currentAttempt response in
                if greaterFinite retryAfterMs MAX_RETRY_AFTER_MS then (st, Inr response)
                else
                  (let st' = st\<lparr>nextDelayMs := retryAfterMs\<rparr>
                   in catchBlock isLastAttempt currentAttempt st'
                        (RetryableFetchError (nextDelayMs st') ''Rate-limited by upstream service.'')))
             else if status response \<ge> 500 \<and> \<not> isLastAttempt then
               (let st' = st\<lparr>nextDelayMs := getBackoffDelayMilliseconds (currentAttempt + 1)\<rparr>
                in catchBlock isLastAttempt currentAttempt st'
                     (RetryableFetchError (nextDelayMs st')
                        ''Upstream service returned a server error.''))
             else (st, Inr response))"

text \<open>
  \<^verbatim>\<open>retry\<close> of es-toolkit is not in the repository. Modelled from the library: it
  calls the function up to \<^verbatim>\<open>retries\<close> times; a value returned ends the loop; an error
  for which \<^verbatim>\<open>shouldRetry\<close> is false is thrown at once; otherwise it waits
  \<^verbatim>\<open>delay(attempts)\<close> and goes on, and after the last round it throws the last error.
  \<^verbatim>\<open>
  retries: totalAttempts,
  shouldRetry: (error) => error instanceof RetryableFetchError,
  delay: () => { const delayMs = nextDelayMs; nextDelayMs = 0; return delayMs; },
  \<close>
\<close>

definition shouldRetry :: "thrown \<Rightarrow> bool" where
  "shouldRetry e = (case e of RetryableFetchError d m \<Rightarrow> True | OtherError m \<Rightarrow> False)"

definition delayCallback :: "retryState \<Rightarrow> jsnumber \<times> retryState" where
  "delayCallback st = (let delayMs = nextDelayMs st in (delayMs, st\<lparr>nextDelayMs := Finite 0\<rparr>))"

fun retry :: "fetchWorld \<Rightarrow> int \<Rightarrow> nat \<Rightarrow> retryState \<Rightarrow> thrown \<Rightarrow> fetchEvent list \<times> (thrown + Response)" where
  "retry w totalAttempts 0 st lastError = ([], Inl lastError)"
| "retry w totalAttempts (Suc remaining) st lastError =
     (case attemptOnce w totalAttempts st of
        (st', Inr response) \<Rightarrow> ([Fetched (attempt st)], Inr response)
      | (st', Inl err) \<Rightarrow>
          if \<not> shouldRetry err then ([Fetched (attempt st)], Inl err)
          else
            (case delayCallback st' of
               (currentDelay, st'') \<Rightarrow>
                 (case retry w totalAttempts remaining st'' err of
                    (events, result) \<Rightarrow>
                      (Fetched (attempt st) # Delayed currentDelay # events, result))))"






section \<open>Dates and the Warsaw clock (common/date.ts, odsluchane/utils.ts)\<close>

text \<open>
  \<^verbatim>\<open>
  const DATE_PATTERN = /^\d{2}-\d{2}-\d{4}$/;
  export function parseInputDate(date: string): ParsedInputDate {
    if (!DATE_PATTERN.test(date)) { throw new Error(`Invalid date format: ...`); }
    const [dayRaw, monthRaw, yearRaw] = date.split('-');
    const day = Number.parseInt(dayRaw ?? '', 10); ...
    const parsedDate = new Date(Date.UTC(year, month - 1, day, 12, 0, 0));
    if (parsedDate.getUTCDate() !== day || parsedDate.getUTCMonth() + 1 !== month ||
        parsedDate.getUTCFullYear() !== year) {
      throw new Error(`Invalid calendar date: ...`);
    }
    return { day, month, year };
  }
  \<close>
  \<^verbatim>\<open>Date.UTC\<close> belongs to the engine. Modelled from ECMAScript: it carries a month or a
  day out of range over into the neighbouring month or year, and reads a year from 0
  to 99 as 1900 plus that year, so the three comparisons hold exactly for a day that
  exists in the Gregorian calendar, in a year from 100 on.
\<close>

record ParsedInputDate =
  day_in :: int
  month_in :: int
  year_in :: int

definition isDigit :: "nat \<Rightarrow> bool" where
  "isDigit c \<longleftrightarrow> 0x30 \<le> c \<and> c \<le> 0x39"

definition parseDigits :: "jsstring \<Rightarrow> int" where
  \<comment> \<open>\<^verbatim>\<open>Number.parseInt(s, 10)\<close> on a run of digits\<close>
  "parseDigits s = foldl (\<lambda>acc c. 10 * acc + (int c - 0x30)) 0 s"

definition isLeapYear :: "int \<Rightarrow> bool" where
  "isLeapYear y \<longleftrightarrow> (y mod 4 = 0 \<and> y mod 100 \<noteq> 0) \<or> y mod 400 = 0"

definition daysInMonth :: "int \<Rightarrow> int \<Rightarrow> int" where
  "daysInMonth y m =
     (if m = 2 then (if isLeapYear y then 29 else 28)
      else if m = 4 \<or> m = 6 \<or> m = 9 \<or> m = 11 then 30
      else 31)"

definition utcRoundTrip :: "int \<Rightarrow> int \<Rightarrow> int \<Rightarrow> bool" where
  "utcRoundTrip y m d \<longleftrightarrow> 100 \<le> y \<and> 1 \<le> m \<and> m \<le> 12 \<and> 1 \<le> d \<and> d \<le> daysInMonth y m"

definition parseInputDate :: "jsstring \<Rightarrow> error + ParsedInputDate" where
  "parseInputDate date =
     (case date of
        [d1, d2, h1, m1, m2, h2, y1, y2, y3, y4] \<Rightarrow>
          if list_all isDigit [d1, d2, m1, m2, y1, y2, y3, y4] \<and> h1 = 0x2D \<and> h2 = 0x2D then
            (let day = parseDigits [d1, d2];
                 month = parseDigits [m1, m2];
                 year = parseDigits [y1, y2, y3, y4]
             in if utcRoundTrip year month day
                then Inr \<lparr>day_in = day, month_in = month, year_in = year\<rparr>
                else Inl (Error ''Invalid calendar date''))
          else Inl (Error ''Invalid date format'')
      | _ \<Rightarrow> Inl (Error ''Invalid date format''))"

text \<open>
  \<^verbatim>\<open>
  export function isWindowFullyInPastInWarsaw(date: string, windowToHour: number): boolean {
    const nowParts = getNowInWarsawParts();
    const targetDate = parseInputDate(date);
    const todayKey = dateKey(nowParts.year, nowParts.month, nowParts.day);
    const targetKey = dateKey(targetDate.year, targetDate.month, targetDate.day);
    if (targetKey < todayKey) { return true; }
    if (targetKey > todayKey) { return false; }
    const nowMinutes = nowParts.hour * 60 + nowParts.minute;
    const windowEndMinutes = windowToHour * 60;
    return nowMinutes >= windowEndMinutes;
  }
  export function isWindowFullyInFutureInWarsaw(date: string, windowFromHour: number): boolean {
    ...
    if (targetKey > todayKey) { return true; }
    if (targetKey < todayKey) { return false; }
    const nowMinutes = nowParts.hour * 60 + nowParts.minute;
    const windowStartMinutes = windowFromHour * 60;
    return windowStartMinutes > nowMinutes;
  }
  function dateKey(year, month, day) { return year * 10_000 + month * 100 + day; }
  \<close>
  \<^verbatim>\<open>getNowInWarsawParts\<close> reads the clock of the machine; what it returns is an
  argument here.
\<close>

record WarsawNowParts =
  year :: int
  month :: int
  day :: int
  hour :: int
  minute :: int

definition dateKey :: "int \<Rightarrow> int \<Rightarrow> int \<Rightarrow> int" where
  "dateKey y m d = y * 10000 + m * 100 + d"

definition isWindowFullyInPastInWarsaw :: "WarsawNowParts \<Rightarrow> jsstring \<Rightarrow> int \<Rightarrow> error + bool" where
  "isWindowFullyInPastInWarsaw nowParts date windowToHour =
     (case parseInputDate date of
        Inl e \<Rightarrow> Inl e
      | Inr targetDate \<Rightarrow>
          (let todayKey = dateKey (year nowParts) (month nowParts) (day nowParts);
               targetKey = dateKey (year_in targetDate) (month_in targetDate) (day_in targetDate)
           in if targetKey < todayKey then Inr True
              else if targetKey > todayKey then Inr False
              else (let nowMinutes = hour nowParts * 60 + minute nowParts;
                        windowEndMinutes = windowToHour * 60
                    in Inr (nowMinutes \<ge> windowEndMinutes))))"

definition isWindowFullyInFutureInWarsaw :: "WarsawNowParts \<Rightarrow> jsstring \<Rightarrow> int \<Rightarrow> error + bool" where
  "isWindowFullyInFutureInWarsaw nowParts date windowFromHour =
     (case parseInputDate date of
        Inl e \<Rightarrow> Inl e
      | Inr targetDate \<Rightarrow>
          (let todayKey = dateKey (year nowParts) (month nowParts) (day nowParts);
               targetKey = dateKey (year_in targetDate) (month_in targetDate) (day_in targetDate)
           in if targetKey > todayKey then Inr True
              else if targetKey < todayKey then Inr False
              else (let nowMinutes = hour nowParts * 60 + minute nowParts;
                        windowStartMinutes = windowFromHour * 60
                    in Inr (windowStartMinutes > nowMinutes))))"

section \<open>Persisted state (common/types.ts, cli/index.ts)\<close>

text \<open>
  \<^verbatim>\<open>
  export type State = {
    version: number;
    stationPlaylists: Record<string, string>;
    scrapedWindows: Record<string, Record<string, Record<string, true>>>;
  };
  function isWindowAlreadyProcessed(state, stationId, date, windowKey): boolean {
    return Boolean(state.scrapedWindows[stationId]?.[date]?.[windowKey]);
  }
  function markWindowProcessed(state, stationId, date, windowKey): void {
    state.scrapedWindows[stationId] ??= {};
    state.scrapedWindows[stationId][date] ??= {};
    state.scrapedWindows[stationId][date][windowKey] = true;
  }
  \<close>
  A record of the source is a map from its own keys to values.
\<close>

record State =
  version :: int
  stationPlaylists :: "jsstring \<rightharpoonup> jsstring"
  scrapedWindows :: "jsstring \<rightharpoonup> (jsstring \<rightharpoonup> (jsstring \<rightharpoonup> bool))"

definition isWindowAlreadyProcessed :: "State \<Rightarrow> jsstring \<Rightarrow> jsstring \<Rightarrow> jsstring \<Rightarrow> bool" where
  "isWindowAlreadyProcessed st stationIdArg dateArg windowKey =
     (case scrapedWindows st stationIdArg of
        None \<Rightarrow> False
      | Some byDate \<Rightarrow>
          (case byDate dateArg of
             None \<Rightarrow> False
           | Some byWindow \<Rightarrow>
               (case byWindow windowKey of None \<Rightarrow> False | Some b \<Rightarrow> b)))"

definition markWindowProcessed :: "State \<Rightarrow> jsstring \<Rightarrow> jsstring \<Rightarrow> jsstring \<Rightarrow> State" where
  "markWindowProcessed st stationIdArg dateArg windowKey =
     (let byDate = (case scrapedWindows st stationIdArg of None \<Rightarrow> Map.empty | Some m \<Rightarrow> m);
          byWindow = (case byDate dateArg of None \<Rightarrow> Map.empty | Some m \<Rightarrow> m)
      in st\<lparr>scrapedWindows :=
              (scrapedWindows st)(stationIdArg \<mapsto> byDate(dateArg \<mapsto> byWindow(windowKey \<mapsto> True)))\<rparr>)"

section \<open>The sync command (cli/index.ts, runSyncCommand)\<close>

text \<open>
  \<^verbatim>\<open>
  export type SyncStats = { windowsPlanned: number; windowsSkippedAlreadyDone: number;
    windowsSkippedFuture: number; windowsProcessed: number; windowsNotMarkedNotInPast: number;
    songsScraped: number; songsDuplicateSkipped: number; songsAlreadyInPlaylistSkipped: number;
    songsMatched: number; songsUnmatched: number; tracksAdded: number };
  export type SpotifyPlaylistTrackIndex = { trackIds: Set<string>; songKeys: Set<string> };
  \<close>
\<close>

record SyncStats =
  windowsPlanned :: nat
  windowsSkippedAlreadyDone :: nat
  windowsSkippedFuture :: nat
  windowsProcessed :: nat
  windowsNotMarkedNotInPast :: nat
  songsScraped :: nat
  songsDuplicateSkipped :: nat
  songsAlreadyInPlaylistSkipped :: nat
  songsMatched :: nat
  songsUnmatched :: nat
  tracksAdded :: nat

record SpotifyPlaylistTrackIndex =
  trackIds :: "jsstring set"
  songKeys :: "jsstring set"

record SpotifyCurrentUser =
  user_id :: jsstring

record SpotifyPlaylistMeta =
  meta_id :: jsstring
  meta_name :: jsstring
  owner_id :: jsstring
  collaborative :: bool

text \<open>
  The values the command works with once its arguments are read: \<^verbatim>\<open>stationId\<close>,
  \<^verbatim>\<open>date\<close>, \<^verbatim>\<open>timeFrom\<close>, \<^verbatim>\<open>timeTo\<close>, \<^verbatim>\<open>windowHours\<close>, \<^verbatim>\<open>sourceDelayMs\<close>,
  \<^verbatim>\<open>spotifyDelayMs\<close>, \<^verbatim>\<open>dryRun\<close>, \<^verbatim>\<open>force\<close> and \<^verbatim>\<open>args.playlist\<close>.
\<close>

record SyncArgs =
  stationId :: jsstring
  date :: jsstring
  timeFrom :: int
  timeTo :: int
  windowHours :: int
  sourceDelayMs :: int
  spotifyDelayMs :: int
  dryRun :: bool
  force :: bool
  playlist :: "jsstring option"

text \<open>
  \<^verbatim>\<open>buildSourceUrl(stationId, date, timeFrom, timeTo)\<close> builds the query string with
  \<^verbatim>\<open>URLSearchParams\<close>; the model keeps the four parameters.
\<close>

datatype sourceUrl = SourceUrl jsstring jsstring int int

definition buildSourceUrl :: "jsstring \<Rightarrow> jsstring \<Rightarrow> int \<Rightarrow> int \<Rightarrow> sourceUrl" where
  "buildSourceUrl station dateArg fromArg toArg = SourceUrl station dateArg fromArg toArg"

text \<open>
  What the command does to the outside, in order. Each of these calls can fail, and
  what it answers may depend on when it is made: the answer is a function of the
  number of events before it, and so is the time the clock shows. The progress reporter's updates are events too.
\<close>

datatype progressStatus = Waiting | Scraping | Skipped | Future | Done

datatype event =
    LoadState
  | SaveState State
  | GetCurrentUser
  | GetPlaylistMeta jsstring
  | GetPlaylistTrackIndex jsstring
  | ScrapeSongsFromSource sourceUrl
  | SearchTracks jsstring nat
  | AddTracksToPlaylist jsstring "jsstring list" "int option"
  | Delay int
  | ProgressUpdate nat nat TimeWindow progressStatus

record world =
  engine :: jsEngine
  nowAt :: "nat \<Rightarrow> WarsawNowParts"
  loadedState :: State
  saveStateResult :: "nat \<Rightarrow> State \<Rightarrow> error + unit"
  getCurrentUser :: "nat \<Rightarrow> error + SpotifyCurrentUser"
  getPlaylistMeta :: "nat \<Rightarrow> jsstring \<Rightarrow> error + SpotifyPlaylistMeta"
  getPlaylistTrackIndex :: "nat \<Rightarrow> jsstring \<Rightarrow> error + SpotifyPlaylistTrackIndex"
  scrapeSongsFromSource :: "nat \<Rightarrow> sourceUrl \<Rightarrow> error + ScrapedSong list"
  searchTracks :: "nat \<Rightarrow> jsstring \<Rightarrow> nat \<Rightarrow> error + SpotifyTrack list"
  addTracksToPlaylist :: "nat \<Rightarrow> jsstring \<Rightarrow> jsstring list \<Rightarrow> int option \<Rightarrow> error + unit"

type_synonym 'a action = "nat \<Rightarrow> (error + 'a) \<times> event list"

text \<open>
  An action is run after a number of events and gives its result, an error or a
  value, and the events it adds.
\<close>

definition succeed :: "'a \<Rightarrow> 'a action" where
  "succeed x t = (Inr x, [])"

definition throw :: "error \<Rightarrow> 'a action" where
  "throw e t = (Inl e, [])"

definition liftResult :: "error + 'a \<Rightarrow> 'a action" where
  "liftResult r t = (r, [])"

definition andThen :: "'a action \<Rightarrow> ('a \<Rightarrow> 'b action) \<Rightarrow> 'b action" where
  \<comment> \<open>\<^verbatim>\<open>await\<close>, and the next statement: an error ends the command\<close>
  "andThen m f t =
     (case m t of
        (Inl e, events) \<Rightarrow> (Inl e, events)
      | (Inr x, events) \<Rightarrow>
          (case f x (t + length events) of (r, events') \<Rightarrow> (r, events @ events')))"

definition perform :: "event \<Rightarrow> (nat \<Rightarrow> error + 'a) \<Rightarrow> 'a action" where
  "perform ev respond t = (respond t, [ev])"

definition emit :: "event \<Rightarrow> unit action" where
  "emit ev = perform ev (\<lambda>t. Inr ())"

definition readClock :: "world \<Rightarrow> WarsawNowParts action" where
  "readClock w t = (Inr (nowAt w t), [])"

text \<open>
  \<^verbatim>\<open>loadState\<close> answers with the state of the file, or an empty state when the file
  cannot be read; \<^verbatim>\<open>saveState\<close> writes the state.
\<close>

definition loadState :: "world \<Rightarrow> State action" where
  "loadState w = andThen (emit LoadState) (\<lambda>u. succeed (loadedState w))"

definition saveState :: "world \<Rightarrow> State \<Rightarrow> unit action" where
  "saveState w st = perform (SaveState st) (\<lambda>t. saveStateResult w t st)"

text \<open>Small functions of the engine and of cli/utils.ts.\<close>

function digitsOf :: "nat \<Rightarrow> jsstring" where
  "digitsOf n = (if n < 10 then [0x30 + n] else digitsOf (n div 10) @ [0x30 + n mod 10])"
  by pat_completeness auto
termination
  by (relation "measure id") auto

declare digitsOf.simps [simp del]

definition showInt :: "int \<Rightarrow> jsstring" where
  \<comment> \<open>an integer in a template literal\<close>
  "showInt i = (if i < 0 then 0x2D # digitsOf (nat (- i)) else digitsOf (nat i))"

fun joinWith :: "jsstring \<Rightarrow> jsstring list \<Rightarrow> jsstring" where
  \<comment> \<open>\<^verbatim>\<open>Array.prototype.join\<close>\<close>
  "joinWith sep [] = []"
| "joinWith sep [p] = p"
| "joinWith sep (p # q # ps) = p @ sep @ joinWith sep (q # ps)"

fun indexOfFrom :: "jsstring \<Rightarrow> jsstring \<Rightarrow> nat \<Rightarrow> int" where
  "indexOfFrom [] sub i = (if sub = [] then int i else - 1)"
| "indexOfFrom (x # xs) sub i =
     (if startsWith (x # xs) sub then int i else indexOfFrom xs sub (i + 1))"

definition indexOf :: "jsstring \<Rightarrow> jsstring \<Rightarrow> int" where
  "indexOf s sub = indexOfFrom s sub 0"

text \<open>
  \<^verbatim>\<open>
  export function normalizePlaylistId(playlist: string): string {
    const trimmed = playlist.trim();
    if (!trimmed.includes('spotify.com/playlist/')) { return trimmed; }
    const slashIndex = trimmed.indexOf('/playlist/');
    const withoutPrefix = trimmed.slice(slashIndex + '/playlist/'.length);
    const queryIndex = withoutPrefix.indexOf('?');
    return (queryIndex === -1 ? withoutPrefix : withoutPrefix.slice(0, queryIndex)).trim();
  }
  export function canCurrentUserWritePlaylist(currentUserId, ownerId, collaborative) {
    return currentUserId === ownerId || collaborative;
  }
  \<close>
\<close>

definition normalizePlaylistId :: "jsstring \<Rightarrow> jsstring" where
  "normalizePlaylistId playlistArg =
     (let trimmed = trim playlistArg in
      if \<not> stringIncludes trimmed (ascii ''spotify.com/playlist/'') then trimmed
      else
        (let slashIndex = indexOf trimmed (ascii ''/playlist/'');
             withoutPrefix = drop (nat (slashIndex + int (length (ascii ''/playlist/'')))) trimmed;
             queryIndex = indexOf withoutPrefix (ascii ''?'')
         in trim (if queryIndex = - 1 then withoutPrefix
                  else take (nat queryIndex) withoutPrefix)))"

definition canCurrentUserWritePlaylist :: "jsstring \<Rightarrow> jsstring \<Rightarrow> bool \<Rightarrow> bool" where
  "canCurrentUserWritePlaylist currentUserId ownerId collab \<longleftrightarrow> currentUserId = ownerId \<or> collab"

text \<open>
  \<^verbatim>\<open>
  async function findTrackForSong(spotify, song): Promise<SpotifyTrack | null> {
    const queryParts: string[] = [];
    if (song.title) { queryParts.push(`track:${song.title}`); }
    if (song.artist) { queryParts.push(`artist:${song.artist}`); }
    const query = queryParts.join(' ').trim() || song.rawLabel;
    const candidates = await spotify.searchTracks(query, 10);
    if (candidates.length === 0) { return null; }
    return chooseBestTrack(song, candidates);
  }
  \<close>
\<close>

definition findTrackForSong :: "world \<Rightarrow> ScrapedSong \<Rightarrow> SpotifyTrack option action" where
  "findTrackForSong w song =
     (let queryParts =
            (if title song \<noteq> [] then [ascii ''track:'' @ title song] else [])
            @ (if artist song \<noteq> [] then [ascii ''artist:'' @ artist song] else []);
          joined = trim (joinWith (ascii '' '') queryParts);
          query = (if joined \<noteq> [] then joined else rawLabel song)
      in andThen (perform (SearchTracks query 10) (\<lambda>t. searchTracks w t query 10))
           (\<lambda>candidates.
              if length candidates = 0 then succeed None
              else andThen (liftResult (chooseBestTrack (engine w) song candidates))
                     (\<lambda>t. succeed (Some t))))"

text \<open>
  The variables of the command that the loops change: \<^verbatim>\<open>state\<close>, \<^verbatim>\<open>playlistIndex\<close>,
  \<^verbatim>\<open>stats\<close>, \<^verbatim>\<open>runSeenSongKeys\<close> and \<^verbatim>\<open>completedWindows\<close>.
\<close>

record SyncVars =
  state :: State
  playlistIndex :: SpotifyPlaylistTrackIndex
  stats :: SyncStats
  runSeenSongKeys :: "jsstring set"
  completedWindows :: nat

text \<open>
  The body of the loop over the songs of a window, with \<^verbatim>\<open>urisToAdd\<close>:
  \<^verbatim>\<open>
  const songKey = buildSongKey(song.artist, song.title);
  if (runSeenSongKeys.has(songKey)) { stats.songsDuplicateSkipped += 1; continue; }
  if (playlistIndex.songKeys.has(songKey)) {
    runSeenSongKeys.add(songKey); stats.songsAlreadyInPlaylistSkipped += 1; continue;
  }
  if (spotifyDelayMs > 0 && index > 0) { await delay(spotifyDelayMs); }
  const spotifyTrack = await findTrackForSong(spotify, song);
  if (!spotifyTrack) { runSeenSongKeys.add(songKey); stats.songsUnmatched += 1; continue; }
  const matchedSongKey = buildSongKey(
    spotifyTrack.artists.map((artist) => artist.name).join(' '), spotifyTrack.name);
  if (playlistIndex.trackIds.has(spotifyTrack.id)) {
    runSeenSongKeys.add(songKey);
    playlistIndex.songKeys.add(songKey);
    playlistIndex.songKeys.add(matchedSongKey);
    stats.songsAlreadyInPlaylistSkipped += 1;
    continue;
  }
  urisToAdd.push(spotifyTrack.uri);
  runSeenSongKeys.add(songKey);
  playlistIndex.trackIds.add(spotifyTrack.id);
  playlistIndex.songKeys.add(songKey);
  playlistIndex.songKeys.add(matchedSongKey);
  stats.songsMatched += 1;
  \<close>
\<close>

definition songKeyOf :: "world \<Rightarrow> ScrapedSong \<Rightarrow> jsstring" where
  "songKeyOf w song = buildSongKey (engine w) (artist song) (title song)"

definition matchedSongKeyOf :: "world \<Rightarrow> SpotifyTrack \<Rightarrow> jsstring" where
  "matchedSongKeyOf w t =
     buildSongKey (engine w) (joinWith (ascii '' '') (map artist_name (artists t))) (track_name t)"

definition songStep ::
  "world \<Rightarrow> int \<Rightarrow> nat \<times> ScrapedSong \<Rightarrow> SyncVars \<times> jsstring list
   \<Rightarrow> (SyncVars \<times> jsstring list) action" where
  "songStep w spotifyDelay entry acc =
     (case (entry, acc) of ((index, song), (v, urisToAdd)) \<Rightarrow>
        (let songKey = songKeyOf w song in
         if songKey \<in> runSeenSongKeys v then
           succeed
             (v\<lparr>stats := (stats v)\<lparr>songsDuplicateSkipped := songsDuplicateSkipped (stats v) + 1\<rparr>\<rparr>,
              urisToAdd)
         else if songKey \<in> songKeys (playlistIndex v) then
           succeed
             (v\<lparr>runSeenSongKeys := insert songKey (runSeenSongKeys v),
                stats := (stats v)\<lparr>songsAlreadyInPlaylistSkipped :=
                                      songsAlreadyInPlaylistSkipped (stats v) + 1\<rparr>\<rparr>,
              urisToAdd)
         else
           andThen (if spotifyDelay > 0 \<and> index > 0 then emit (Delay spotifyDelay) else succeed ())
             (\<lambda>u. andThen (findTrackForSong w song)
                (\<lambda>found.
                   case found of
                     None \<Rightarrow>
                       succeed
                         (v\<lparr>runSeenSongKeys := insert songKey (runSeenSongKeys v),
                            stats := (stats v)\<lparr>songsUnmatched := songsUnmatched (stats v) + 1\<rparr>\<rparr>,
                          urisToAdd)
                   | Some spotifyTrack \<Rightarrow>
                       (let matchedSongKey = matchedSongKeyOf w spotifyTrack in
                        if track_id spotifyTrack \<in> trackIds (playlistIndex v) then
                          succeed
                            (v\<lparr>runSeenSongKeys := insert songKey (runSeenSongKeys v),
                               playlistIndex := (playlistIndex v)
                                 \<lparr>songKeys := insert matchedSongKey
                                                (insert songKey (songKeys (playlistIndex v)))\<rparr>,
                               stats := (stats v)\<lparr>songsAlreadyInPlaylistSkipped :=
                                                     songsAlreadyInPlaylistSkipped (stats v) + 1\<rparr>\<rparr>,
                             urisToAdd)
                        else
                          succeed
                            (v\<lparr>runSeenSongKeys := insert songKey (runSeenSongKeys v),
                               playlistIndex := (playlistIndex v)
                                 \<lparr>trackIds := insert (track_id spotifyTrack)
                                                (trackIds (playlistIndex v)),
                                  songKeys := insert matchedSongKey
                                                (insert songKey (songKeys (playlistIndex v)))\<rparr>,
                               stats := (stats v)\<lparr>songsMatched := songsMatched (stats v) + 1\<rparr>\<rparr>,
                             urisToAdd @ [uri spotifyTrack]))))))"

fun processSongs ::
  "world \<Rightarrow> int \<Rightarrow> (nat \<times> ScrapedSong) list \<Rightarrow> SyncVars \<times> jsstring list
   \<Rightarrow> (SyncVars \<times> jsstring list) action" where
  "processSongs w spotifyDelay [] acc = succeed acc"
| "processSongs w spotifyDelay (entry # entries) acc =
     andThen (songStep w spotifyDelay entry acc) (processSongs w spotifyDelay entries)"

text \<open>
  The body of the loop over the windows:
  \<^verbatim>\<open>
  const windowKey = `${window.from}-${window.to}`;
  progressReporter?.update({ completed: completedWindows, ..., status: 'scraping' });
  if (isWindowFullyInFutureInWarsaw(date, window.from)) {
    stats.windowsSkippedFuture += 1; completedWindows += 1;
    progressReporter?.update({ ..., status: 'future' });
    continue;
  }
  if (!force && isWindowAlreadyProcessed(state, stationId, date, windowKey)) {
    stats.windowsSkippedAlreadyDone += 1; completedWindows += 1;
    progressReporter?.update({ ..., status: 'skipped' });
    continue;
  }
  const sourceUrl = buildSourceUrl(stationId, date, window.from, window.to);
  const songs = await scrapeSongsFromSource(sourceUrl);
  stats.songsScraped += songs.length;
  const urisToAdd: string[] = [];
  for (const [index, song] of songs.entries()) { ... }
  if (!dryRun && urisToAdd.length > 0) {
    await spotify.addTracksToPlaylist(playlistId, urisToAdd.toReversed(), { position: 0 });
    stats.tracksAdded += urisToAdd.length;
  }
  if (!dryRun && isWindowFullyInPastInWarsaw(date, window.to)) {
    markWindowProcessed(state, stationId, date, windowKey);
    await saveState(state);
  } else if (!dryRun) {
    stats.windowsNotMarkedNotInPast += 1;
  }
  stats.windowsProcessed += 1; completedWindows += 1;
  progressReporter?.update({ ..., status: 'done' });
  if (sourceDelayMs > 0) { await delay(sourceDelayMs); }
  \<close>
\<close>

definition windowKeyOf :: "TimeWindow \<Rightarrow> jsstring" where
  "windowKeyOf window = showInt (from_hour window) @ ascii ''-'' @ showInt (to_hour window)"

definition addAccumulated ::
  "world \<Rightarrow> SyncArgs \<Rightarrow> jsstring \<Rightarrow> SyncVars \<Rightarrow> jsstring list \<Rightarrow> SyncVars action" where
  "addAccumulated w args playlistId v urisToAdd =
     (if \<not> dryRun args \<and> length urisToAdd > 0 then
        andThen
          (perform (AddTracksToPlaylist playlistId (rev urisToAdd) (Some 0))
             (\<lambda>t. addTracksToPlaylist w t playlistId (rev urisToAdd) (Some 0)))
          (\<lambda>u. succeed
                 (v\<lparr>stats := (stats v)\<lparr>tracksAdded := tracksAdded (stats v) + length urisToAdd\<rparr>\<rparr>))
      else succeed v)"

definition commitWindow :: "world \<Rightarrow> SyncArgs \<Rightarrow> TimeWindow \<Rightarrow> SyncVars \<Rightarrow> SyncVars action" where
  "commitWindow w args window v =
     (if \<not> dryRun args then
        andThen (readClock w)
          (\<lambda>nowParts.
             andThen (liftResult (isWindowFullyInPastInWarsaw nowParts (date args) (to_hour window)))
               (\<lambda>past.
                  if past then
                    (let marked = markWindowProcessed (state v) (stationId args) (date args)
                                    (windowKeyOf window)
                     in andThen (saveState w marked) (\<lambda>u. succeed (v\<lparr>state := marked\<rparr>)))
                  else
                    succeed
                      (v\<lparr>stats := (stats v)\<lparr>windowsNotMarkedNotInPast :=
                                            windowsNotMarkedNotInPast (stats v) + 1\<rparr>\<rparr>)))
      else succeed v)"

definition scrapeWindow ::
  "world \<Rightarrow> SyncArgs \<Rightarrow> jsstring \<Rightarrow> nat \<Rightarrow> TimeWindow \<Rightarrow> SyncVars \<Rightarrow> SyncVars action" where
  "scrapeWindow w args playlistId windowCount window v =
     (let sourceUrl = buildSourceUrl (stationId args) (date args) (from_hour window) (to_hour window)
      in andThen (perform (ScrapeSongsFromSource sourceUrl) (\<lambda>t. scrapeSongsFromSource w t sourceUrl))
           (\<lambda>songs.
              andThen
                (processSongs w (spotifyDelayMs args) (enumerate 0 songs)
                   (v\<lparr>stats := (stats v)\<lparr>songsScraped := songsScraped (stats v) + length songs\<rparr>\<rparr>,
                    []))
                (\<lambda>(v2, urisToAdd).
                   andThen (addAccumulated w args playlistId v2 urisToAdd)
                     (\<lambda>v3.
                        andThen (commitWindow w args window v3)
                          (\<lambda>v4.
                             (let v5 = v4\<lparr>stats := (stats v4)\<lparr>windowsProcessed :=
                                                          windowsProcessed (stats v4) + 1\<rparr>,
                                           completedWindows := completedWindows v4 + 1\<rparr>
                              in andThen
                                   (emit (ProgressUpdate (completedWindows v5) windowCount window Done))
                                   (\<lambda>u. andThen
                                          (if sourceDelayMs args > 0 then emit (Delay (sourceDelayMs args))
                                           else succeed ())
                                          (\<lambda>u. succeed v5))))))))"

definition windowStep ::
  "world \<Rightarrow> SyncArgs \<Rightarrow> jsstring \<Rightarrow> nat \<Rightarrow> TimeWindow \<Rightarrow> SyncVars \<Rightarrow> SyncVars action" where
  "windowStep w args playlistId windowCount window v =
     andThen (emit (ProgressUpdate (completedWindows v) windowCount window Scraping))
       (\<lambda>u. andThen (readClock w)
          (\<lambda>nowParts.
             andThen (liftResult (isWindowFullyInFutureInWarsaw nowParts (date args) (from_hour window)))
               (\<lambda>future.
                  if future then
                    (let v1 = v\<lparr>stats := (stats v)\<lparr>windowsSkippedFuture :=
                                                 windowsSkippedFuture (stats v) + 1\<rparr>,
                                  completedWindows := completedWindows v + 1\<rparr>
                     in andThen (emit (ProgressUpdate (completedWindows v1) windowCount window Future))
                          (\<lambda>u. succeed v1))
                  else if \<not> force args
                          \<and> isWindowAlreadyProcessed (state v) (stationId args) (date args)
                                (windowKeyOf window) then
                    (let v1 = v\<lparr>stats := (stats v)\<lparr>windowsSkippedAlreadyDone :=
                                                 windowsSkippedAlreadyDone (stats v) + 1\<rparr>,
                                  completedWindows := completedWindows v + 1\<rparr>
                     in andThen (emit (ProgressUpdate (completedWindows v1) windowCount window Skipped))
                          (\<lambda>u. succeed v1))
                  else scrapeWindow w args playlistId windowCount window v)))"

fun processWindows ::
  "world \<Rightarrow> SyncArgs \<Rightarrow> jsstring \<Rightarrow> nat \<Rightarrow> TimeWindow list \<Rightarrow> SyncVars \<Rightarrow> SyncVars action" where
  "processWindows w args playlistId windowCount [] v = succeed v"
| "processWindows w args playlistId windowCount (window # windows) v =
     andThen (windowStep w args playlistId windowCount window v)
       (processWindows w args playlistId windowCount windows)"

text \<open>
  The command, from the check of the date on:
  \<^verbatim>\<open>
  parseInputDate(date);
  ...
  if (timeFrom < 0 || timeFrom > 23 || timeTo < 1 || timeTo > 24 || timeFrom >= timeTo) {
    throw new Error('Invalid --from/--to values. Expected 0 <= from < to <= 24.');
  }
  if (windowHours < 1 || windowHours > 2) {
    throw new Error('Invalid --window value. odsluchane supports max 2 hours per request.');
  }
  const state = await loadState();
  if (args.playlist) {
    state.stationPlaylists[stationId] = normalizePlaylistId(String(args.playlist));
    await saveState(state);
  }
  const playlistId = state.stationPlaylists[stationId];
  if (!playlistId) { throw new Error(`No playlist mapped for station ...`); }
  const spotify = new SpotifyClient();
  const currentUser = await spotify.getCurrentUser();
  const playlistMeta = await spotify.getPlaylistMeta(playlistId);
  if (!canCurrentUserWritePlaylist(currentUser.id, playlistMeta.owner.id,
        playlistMeta.collaborative) && !dryRun) {
    throw new Error(`Mapped playlist ... is not writable ...`);
  }
  const playlistIndex = await spotify.getPlaylistTrackIndex(playlistId);
  const stats: SyncStats = { windowsPlanned: 0, ... };
  const windows = buildWindows(timeFrom, timeTo, windowHours);
  stats.windowsPlanned = windows.length;
  const progressReporter = windows.length > 0 ? new WindowProgressReporter(windows.length) : null;
  const runSeenSongKeys = new Set<string>();
  let completedWindows = 0;
  const firstWindow = windows[0];
  if (firstWindow && progressReporter) {
    progressReporter.update({ completed: 0, total: windows.length, window: firstWindow,
                              status: 'waiting' });
  }
  for (const window of windows) { ... }
  printSyncSummary({ stationId, date, playlistId, dryRun, force, stats });
  \<close>
  The command returns the statistics it prints. \<open>buildWindows\<close> returns after the two
  checks (lemma \<open>buildWindows_stride\<close>); the model has a branch for the other case, as
  its result type asks for one.
\<close>

definition emptyStats :: SyncStats where
  "emptyStats =
     \<lparr>windowsPlanned = 0, windowsSkippedAlreadyDone = 0, windowsSkippedFuture = 0,
      windowsProcessed = 0, windowsNotMarkedNotInPast = 0, songsScraped = 0,
      songsDuplicateSkipped = 0, songsAlreadyInPlaylistSkipped = 0, songsMatched = 0,
      songsUnmatched = 0, tracksAdded = 0\<rparr>"

definition mapPlaylist :: "world \<Rightarrow> SyncArgs \<Rightarrow> State \<Rightarrow> State action" where
  "mapPlaylist w args st =
     (case playlist args of
        None \<Rightarrow> succeed st
      | Some p \<Rightarrow>
          if p \<noteq> [] then
            (let mapped = st\<lparr>stationPlaylists :=
                              (stationPlaylists st)(stationId args \<mapsto> normalizePlaylistId p)\<rparr>
             in andThen (saveState w mapped) (\<lambda>u. succeed mapped))
          else succeed st)"

definition syncWindows ::
  "world \<Rightarrow> SyncArgs \<Rightarrow> jsstring \<Rightarrow> State \<Rightarrow> SpotifyPlaylistTrackIndex \<Rightarrow> SyncStats action" where
  "syncWindows w args playlistId st index0 =
     (case buildWindows (timeFrom args) (timeTo args) (windowHours args) of
        None \<Rightarrow> throw (Error ''buildWindows does not return'')
      | Some windows \<Rightarrow>
          (let v0 = \<lparr>state = st, playlistIndex = index0,
                      stats = emptyStats\<lparr>windowsPlanned := length windows\<rparr>,
                      runSeenSongKeys = {}, completedWindows = 0\<rparr>
           in andThen
                (case windows of
                   [] \<Rightarrow> succeed ()
                 | firstWindow # others \<Rightarrow>
                     emit (ProgressUpdate 0 (length windows) firstWindow Waiting))
                (\<lambda>u. andThen (processWindows w args playlistId (length windows) windows v0)
                       (\<lambda>v. succeed (stats v)))))"

definition runSyncCommand :: "world \<Rightarrow> SyncArgs \<Rightarrow> SyncStats action" where
  "runSyncCommand w args =
     andThen (liftResult (parseInputDate (date args)))
       (\<lambda>parsed.
          if timeFrom args < 0 \<or> timeFrom args > 23 \<or> timeTo args < 1 \<or> timeTo args > 24
             \<or> timeFrom args \<ge> timeTo args then
            throw (Error ''Invalid --from/--to values. Expected 0 <= from < to <= 24.'')
          else if windowHours args < 1 \<or> windowHours args > 2 then
            throw (Error ''Invalid --window value. odsluchane supports max 2 hours per request.'')
          else
            andThen (loadState w)
              (\<lambda>loaded.
                 andThen (mapPlaylist w args loaded)
                   (\<lambda>st.
                      case stationPlaylists st (stationId args) of
                        None \<Rightarrow> throw (Error ''No playlist mapped for station'')
                      | Some playlistId \<Rightarrow>
                          if playlistId = [] then throw (Error ''No playlist mapped for station'')
                          else
                            andThen (perform GetCurrentUser (getCurrentUser w))
                              (\<lambda>currentUser.
                                 andThen (perform (GetPlaylistMeta playlistId)
                                            (\<lambda>t. getPlaylistMeta w t playlistId))
                                   (\<lambda>playlistMeta.
                                      if \<not> canCurrentUserWritePlaylist (user_id currentUser)
                                             (owner_id playlistMeta) (collaborative playlistMeta)
                                         \<and> \<not> dryRun args then
                                        throw (Error ''Mapped playlist is not writable'')
                                      else
                                        andThen (perform (GetPlaylistTrackIndex playlistId)
                                                   (\<lambda>t. getPlaylistTrackIndex w t playlistId))
                                          (syncWindows w args playlistId st))))))"

text \<open>
  \<^verbatim>\<open>SpotifyClient.addTracksToPlaylist\<close> (spotify/index.ts) and what it asks for.
  \<^verbatim>\<open>
  const position = options?.position;
  const chunks = chunk(uris, 100);
  const iterableChunks = position === 0 ? chunks.toReversed() : chunks;
  for (const chunkItem of iterableChunks) {
    const payload: { uris: string[]; position?: number } = { uris: chunkItem };
    if (typeof position === 'number') { payload.position = position; }
    await this.apiRequest('POST', `.../playlists/${playlistId}/items`, payload);
  }
  \<close>
  \<^verbatim>\<open>chunk\<close> of es-toolkit cuts a list into runs of the given length, the last one
  shorter when the list does not divide. The service inserts the items of a request,
  in their order, at the position asked for, and at the end when none is given.
\<close>

function chunk :: "'a list \<Rightarrow> nat \<Rightarrow> 'a list list" where
  "chunk xs n = (if xs = [] \<or> n = 0 then [] else take n xs # chunk (drop n xs) n)"
  by pat_completeness auto
termination
  by (relation "measure (\<lambda>(xs, n). length xs)") auto

declare chunk.simps [simp del]

record addPayload =
  payload_uris :: "jsstring list"
  payload_position :: "int option"

definition addTracksPayloads :: "jsstring list \<Rightarrow> int option \<Rightarrow> addPayload list" where
  "addTracksPayloads uris position =
     (let chunks = chunk uris 100;
          iterableChunks = (if position = Some 0 then rev chunks else chunks)
      in map (\<lambda>chunkItem. \<lparr>payload_uris = chunkItem, payload_position = position\<rparr>)
           iterableChunks)"

definition insertItems :: "jsstring list \<Rightarrow> addPayload \<Rightarrow> jsstring list" where
  "insertItems playlistItems p =
     (case payload_position p of
        None \<Rightarrow> playlistItems @ payload_uris p
      | Some i \<Rightarrow> take (nat i) playlistItems @ payload_uris p @ drop (nat i) playlistItems)"

text \<open>
  Two ways to speak about an action: every event it adds, however it ends, satisfies
  a predicate; when it ends well, its events and its value are related.
\<close>

definition emitsOnly :: "(event \<Rightarrow> bool) \<Rightarrow> 'a action \<Rightarrow> bool" where
  "emitsOnly P a \<longleftrightarrow> (\<forall>t. list_all P (snd (a t)))"

definition obeys :: "'a action \<Rightarrow> (event list \<Rightarrow> 'a \<Rightarrow> bool) \<Rightarrow> bool" where
  "obeys a R \<longleftrightarrow> (\<forall>t x. fst (a t) = Inr x \<longrightarrow> R (snd (a t)) x)"

text \<open>What the duplicate suppression keeps: keys and identifiers only ever grow.\<close>

definition recorded :: "SyncVars \<Rightarrow> jsstring \<Rightarrow> bool" where
  "recorded v k \<longleftrightarrow> k \<in> runSeenSongKeys v \<or> k \<in> songKeys (playlistIndex v)"

definition grows :: "SyncVars \<Rightarrow> SyncVars \<Rightarrow> bool" where
  "grows v v' \<longleftrightarrow>
     runSeenSongKeys v \<subseteq> runSeenSongKeys v'
     \<and> songKeys (playlistIndex v) \<subseteq> songKeys (playlistIndex v')
     \<and> trackIds (playlistIndex v) \<subseteq> trackIds (playlistIndex v')"


definition pausesAfter :: "SyncArgs \<Rightarrow> event list" where
  \<comment> \<open>the delay behind a window\<close>
  "pausesAfter args = (if sourceDelayMs args > 0 then [Delay (sourceDelayMs args)] else [])"

definition countScraped :: "SyncVars \<Rightarrow> nat \<Rightarrow> SyncVars" where
  "countScraped v n = v\<lparr>stats := (stats v)\<lparr>songsScraped := songsScraped (stats v) + n\<rparr>\<rparr>"

definition countProcessed :: "SyncVars \<Rightarrow> SyncVars" where
  "countProcessed v =
     v\<lparr>stats := (stats v)\<lparr>windowsProcessed := windowsProcessed (stats v) + 1\<rparr>,
       completedWindows := completedWindows v + 1\<rparr>"

text \<open>Kinds of events.\<close>

definition songEvent :: "event \<Rightarrow> bool" where
  "songEvent ev = (case ev of Delay d \<Rightarrow> True | SearchTracks q l \<Rightarrow> True | _ \<Rightarrow> False)"

definition progressEvent :: "event \<Rightarrow> bool" where
  "progressEvent ev = (case ev of ProgressUpdate c n window s \<Rightarrow> True | _ \<Rightarrow> False)"

definition addEvent :: "event \<Rightarrow> bool" where
  "addEvent ev = (case ev of AddTracksToPlaylist p u pos \<Rightarrow> True | _ \<Rightarrow> False)"

definition scrapeEvent :: "event \<Rightarrow> bool" where
  "scrapeEvent ev = (case ev of ScrapeSongsFromSource u \<Rightarrow> True | _ \<Rightarrow> False)"

definition windowEvent :: "SyncArgs \<Rightarrow> State \<Rightarrow> TimeWindow \<Rightarrow> event \<Rightarrow> bool" where
  \<comment> \<open>what the handling of one window may add, begun in the given state\<close>
  "windowEvent args st window ev =
     (case ev of
        SaveState s \<Rightarrow>
          \<not> dryRun args
          \<and> s = markWindowProcessed st (stationId args) (date args) (windowKeyOf window)
      | AddTracksToPlaylist p u pos \<Rightarrow> \<not> dryRun args
      | ScrapeSongsFromSource u \<Rightarrow> True
      | SearchTracks q l \<Rightarrow> True
      | Delay d \<Rightarrow> True
      | ProgressUpdate c n win s \<Rightarrow> True
      | _ \<Rightarrow> False)"


definition countAlreadyDone :: "SyncVars \<Rightarrow> SyncVars" where
  "countAlreadyDone v =
     v\<lparr>stats := (stats v)\<lparr>windowsSkippedAlreadyDone := windowsSkippedAlreadyDone (stats v) + 1\<rparr>,
       completedWindows := completedWindows v + 1\<rparr>"

text \<open>Readings of the statistics, and what the state file holds after some events.\<close>

definition songsClassified :: "SyncStats \<Rightarrow> nat" where
  "songsClassified st =
     songsDuplicateSkipped st + songsAlreadyInPlaylistSkipped st + songsMatched st
     + songsUnmatched st"

definition windowCounters :: "SyncStats \<Rightarrow> nat \<times> nat \<times> nat \<times> nat \<times> nat \<times> nat \<times> nat" where
  "windowCounters st =
     (windowsPlanned st, windowsSkippedAlreadyDone st, windowsSkippedFuture st,
      windowsProcessed st, windowsNotMarkedNotInPast st, songsScraped st, tracksAdded st)"

definition saveEvent :: "event \<Rightarrow> bool" where
  "saveEvent ev = (case ev of SaveState s \<Rightarrow> True | _ \<Rightarrow> False)"

definition searchEvent :: "event \<Rightarrow> bool" where
  "searchEvent ev = (case ev of SearchTracks q l \<Rightarrow> True | _ \<Rightarrow> False)"

definition persisted :: "State \<Rightarrow> event list \<Rightarrow> State" where
  \<comment> \<open>the state last saved, or the one there was\<close>
  "persisted st events = foldl (\<lambda>s ev. case ev of SaveState s' \<Rightarrow> s' | _ \<Rightarrow> s) st events"

definition savedStates :: "event list \<Rightarrow> State list" where
  \<comment> \<open>the states written to the file, in order\<close>
  "savedStates events = concat (map (\<lambda>ev. case ev of SaveState s \<Rightarrow> [s] | _ \<Rightarrow> []) events)"

definition eventsAt :: "nat \<Rightarrow> event list \<Rightarrow> (nat \<Rightarrow> event \<Rightarrow> bool) \<Rightarrow> bool" where
  \<comment> \<open>a property of every event and of the number of events before it\<close>
  "eventsAt t events P \<longleftrightarrow> (\<forall>k < length events. P (t + k) (events ! k))"

text \<open>
  The second of two readings of the clock is not earlier than the first, compared the
  way the source compares a date with today.
\<close>

definition notEarlier :: "WarsawNowParts \<Rightarrow> WarsawNowParts \<Rightarrow> bool" where
  "notEarlier a b \<longleftrightarrow>
     dateKey (year a) (month a) (day a) < dateKey (year b) (month b) (day b)
     \<or> (dateKey (year a) (month a) (day a) = dateKey (year b) (month b) (day b)
         \<and> hour a * 60 + minute a \<le> hour b * 60 + minute b)"

definition mappedState :: "State \<Rightarrow> jsstring \<Rightarrow> jsstring \<Rightarrow> State" where
  \<comment> \<open>the state with a station mapped to the playlist given on the command line\<close>
  "mappedState st station p =
     st\<lparr>stationPlaylists := (stationPlaylists st)(station \<mapsto> normalizePlaylistId p)\<rparr>"

text \<open>
  The command before its loop: the state it goes on with, the write of the mapping,
  the first update of the progress reporter, the variables the loop begins with, and
  the events there can be before the loop.
\<close>

definition startState :: "world \<Rightarrow> SyncArgs \<Rightarrow> State" where
  "startState w args =
     (case playlist args of
        None \<Rightarrow> loadedState w
      | Some p \<Rightarrow> if p \<noteq> [] then mappedState (loadedState w) (stationId args) p
                  else loadedState w)"

definition mappingSave :: "world \<Rightarrow> SyncArgs \<Rightarrow> event list" where
  "mappingSave w args =
     (case playlist args of
        None \<Rightarrow> []
      | Some p \<Rightarrow> if p \<noteq> [] then [SaveState (startState w args)] else [])"

definition waitingUpdate :: "TimeWindow list \<Rightarrow> event list" where
  "waitingUpdate windows =
     (case windows of
        [] \<Rightarrow> []
      | firstWindow # others \<Rightarrow> [ProgressUpdate 0 (length windows) firstWindow Waiting])"

definition startVars :: "State \<Rightarrow> SpotifyPlaylistTrackIndex \<Rightarrow> TimeWindow list \<Rightarrow> SyncVars" where
  "startVars st index0 windows =
     \<lparr>state = st, playlistIndex = index0,
      stats = emptyStats\<lparr>windowsPlanned := length windows\<rparr>,
      runSeenSongKeys = {}, completedWindows = 0\<rparr>"

definition prologue :: "world \<Rightarrow> SyncArgs \<Rightarrow> jsstring \<Rightarrow> TimeWindow list \<Rightarrow> event list" where
  "prologue w args playlistId windows =
     LoadState # mappingSave w args
     @ [GetCurrentUser, GetPlaylistMeta playlistId, GetPlaylistTrackIndex playlistId]
     @ waitingUpdate windows"

definition prologueEvent :: "world \<Rightarrow> SyncArgs \<Rightarrow> event \<Rightarrow> bool" where
  "prologueEvent w args ev =
     (case ev of
        LoadState \<Rightarrow> True
      | SaveState s \<Rightarrow> s = startState w args
      | GetCurrentUser \<Rightarrow> True
      | GetPlaylistMeta p \<Rightarrow> True
      | GetPlaylistTrackIndex p \<Rightarrow> True
      | ProgressUpdate c n window s \<Rightarrow> True
      | _ \<Rightarrow> False)"

definition loopEvent :: "SyncArgs \<Rightarrow> event \<Rightarrow> bool" where
  \<comment> \<open>what the loop over the windows may add\<close>
  "loopEvent args ev =
     (case ev of
        SaveState s \<Rightarrow> \<not> dryRun args
      | AddTracksToPlaylist p u pos \<Rightarrow> \<not> dryRun args
      | ScrapeSongsFromSource u \<Rightarrow> True
      | SearchTracks q l \<Rightarrow> True
      | Delay d \<Rightarrow> True
      | ProgressUpdate c n window s \<Rightarrow> True
      | _ \<Rightarrow> False)"

section \<open>An example run\<close>

text \<open>
  A world for the examples. It is half past nine on 25 February 2026; the state file
  maps station 40 to a playlist and remembers no window; the playlist is empty and
  belongs to the user; every request is answered. The source lists three plays between
  7 and 9, the first song twice; the search knows both songs.
\<close>

definition fernando :: ScrapedSong where
  "fernando =
     \<lparr>playedAt = ascii ''07:40'', rawLabel = ascii ''ABBA - Fernando'', artist = ascii ''ABBA'',
      title = ascii ''Fernando'', sourceUrl = ascii ''https://www.odsluchane.eu/szukaj.php''\<rparr>"

definition fernandoTrack :: SpotifyTrack where
  "fernandoTrack =
     \<lparr>track_id = ascii ''f1'', uri = ascii ''spotify:track:f1'', track_name = ascii ''Fernando'',
      artists = [\<lparr>artist_name = ascii ''ABBA''\<rparr>], popularity = Some 55,
      album = \<lparr>album_type = ascii ''album'', album_name = ascii ''Gold''\<rparr>\<rparr>"

definition exampleState :: State where
  "exampleState =
     \<lparr>version = 1, stationPlaylists = [ascii ''40'' \<mapsto> ascii ''pl1''],
      scrapedWindows = Map.empty\<rparr>"

definition exampleWorld :: world where
  "exampleWorld =
     \<lparr>engine = latin1Engine,
      nowAt = (\<lambda>t. \<lparr>year = 2026, month = 2, day = 25, hour = 9, minute = 30\<rparr>),
      loadedState = exampleState,
      saveStateResult = (\<lambda>t st. Inr ()),
      getCurrentUser = (\<lambda>t. Inr \<lparr>user_id = ascii ''me''\<rparr>),
      getPlaylistMeta = (\<lambda>t p. Inr \<lparr>meta_id = p, meta_name = ascii ''Radio'',
                                     owner_id = ascii ''me'', collaborative = False\<rparr>),
      getPlaylistTrackIndex = (\<lambda>t p. Inr \<lparr>trackIds = {}, songKeys = {}\<rparr>),
      scrapeSongsFromSource = (\<lambda>t u. Inr [waterloo, fernando, waterloo]),
      searchTracks = (\<lambda>t q l. if q = ascii ''track:Fernando artist:ABBA''
                                then Inr [fernandoTrack]
                                else Inr [waterlooSingle, waterlooAlbum]),
      addTracksToPlaylist = (\<lambda>t p u pos. Inr ())\<rparr>"

definition exampleArgs :: SyncArgs where
  \<comment> \<open>\<^verbatim>\<open>sync --station 40 --date 24-02-2026 --from 7 --to 9 --source-delay-ms 0 --spotify-delay-ms 0\<close>\<close>
  "exampleArgs =
     \<lparr>stationId = ascii ''40'', date = ascii ''24-02-2026'', timeFrom = 7, timeTo = 9,
      windowHours = 2, sourceDelayMs = 0, spotifyDelayMs = 0, dryRun = False, force = False,
      playlist = None\<rparr>"

definition exampleWindow :: TimeWindow where
  "exampleWindow = \<lparr>from_hour = 7, to_hour = 9\<rparr>"

definition exampleVars :: SyncVars where
  \<comment> \<open>the variables of the example run when its loop begins\<close>
  "exampleVars =
     \<lparr>state = exampleState, playlistIndex = \<lparr>trackIds = {}, songKeys = {}\<rparr>,
      stats = emptyStats\<lparr>windowsPlanned := 1\<rparr>, runSeenSongKeys = {}, completedWindows = 0\<rparr>"


definition exampleHeard :: SyncVars where
  \<comment> \<open>after the second song\<close>
  "exampleHeard =
     exampleVars
       \<lparr>runSeenSongKeys := {songKeyOf exampleWorld fernando, songKeyOf exampleWorld waterloo},
        playlistIndex :=
          \<lparr>trackIds = {track_id fernandoTrack, track_id waterlooAlbum},
           songKeys = {matchedSongKeyOf exampleWorld fernandoTrack,
                       songKeyOf exampleWorld fernando,
                       matchedSongKeyOf exampleWorld waterlooAlbum,
                       songKeyOf exampleWorld waterloo}\<rparr>,
        stats := emptyStats\<lparr>windowsPlanned := 1, songsScraped := 3, songsMatched := 2\<rparr>\<rparr>"

definition exampleUris :: "jsstring list" where
  \<comment> \<open>the tracks accumulated in the window\<close>
  "exampleUris = [uri waterlooAlbum, uri fernandoTrack]"

definition exampleMarked :: State where
  "exampleMarked =
     markWindowProcessed exampleState (ascii ''40'') (ascii ''24-02-2026'') (windowKeyOf exampleWindow)"

definition exampleStats :: "nat \<Rightarrow> SyncStats" where
  \<comment> \<open>the statistics of the example run, given the number of tracks counted as added\<close>
  "exampleStats added =
     \<lparr>windowsPlanned = 1, windowsSkippedAlreadyDone = 0, windowsSkippedFuture = 0,
      windowsProcessed = 1, windowsNotMarkedNotInPast = 0, songsScraped = 3,
      songsDuplicateSkipped = 1, songsAlreadyInPlaylistSkipped = 0, songsMatched = 2,
      songsUnmatched = 0, tracksAdded = added\<rparr>"

definition exampleDone :: "bool \<Rightarrow> SyncVars" where
  \<comment> \<open>the variables after the window, in a dry run or not\<close>
  "exampleDone dry =
     exampleHeard
       \<lparr>state := (if dry then exampleState else exampleMarked),
        stats := exampleStats (if dry then 0 else 2),
        completedWindows := 1\<rparr>"

definition examplePrologue :: "event list" where
  "examplePrologue =
     [LoadState, GetCurrentUser, GetPlaylistMeta (ascii ''pl1''),
      GetPlaylistTrackIndex (ascii ''pl1''), ProgressUpdate 0 1 exampleWindow Waiting]"

definition exampleMatching :: "event list" where
  "exampleMatching =
     [ScrapeSongsFromSource (SourceUrl (ascii ''40'') (ascii ''24-02-2026'') 7 9),
      SearchTracks (ascii ''track:Waterloo artist:ABBA'') 10,
      SearchTracks (ascii ''track:Fernando artist:ABBA'') 10]"

definition exampleCommit :: "bool \<Rightarrow> event list" where
  \<comment> \<open>what follows the matching, in a dry run or not\<close>
  "exampleCommit dry =
     (if dry then []
      else [AddTracksToPlaylist (ascii ''pl1'') (rev exampleUris) (Some 0),
            SaveState exampleMarked])"

definition exampleWindowEvents :: "bool \<Rightarrow> nat \<Rightarrow> event list" where
  "exampleWindowEvents dry n =
     exampleMatching @ exampleCommit dry @ [ProgressUpdate 1 n exampleWindow Done]"

definition exampleAfter :: world where
  \<comment> \<open>the same world once the example run has written its state\<close>
  "exampleAfter = exampleWorld\<lparr>loadedState := exampleMarked\<rparr>"



section \<open>Properties of the window planner\<close>


lemma strideCount_done: "0 < w \<Longrightarrow> \<not> f < t \<Longrightarrow> strideCount f t w = 0"
proof -
  assume w: "0 < w" and nlt: "\<not> f < t"
  then have "t - f + w - 1 < w" by arith
  moreover have "(t - f + w - 1) div w \<le> 0"
  proof (cases "0 \<le> t - f + w - 1")
    case True
    with \<open>t - f + w - 1 < w\<close> show ?thesis by (simp add: div_pos_pos_trivial)
  next
    case False
    with w show ?thesis by (simp add: div_neg_pos_less0 less_imp_le)
  qed
  ultimately show ?thesis by (simp add: strideCount_def)
qed

lemma strideCount_step:
  assumes w: "0 < w" and lt: "f < t"
  shows "strideCount f t w = Suc (strideCount (f + w) t w)"
proof -
  have eq: "t - f + w - 1 = (t - (f + w) + w - 1) + 1 * w" by arith
  have "(t - f + w - 1) div w = (t - (f + w) + w - 1) div w + 1"
    using w by (subst eq, subst div_mult_self1) auto
  moreover have "0 \<le> (t - (f + w) + w - 1) div w"
    using w lt by (simp add: pos_imp_zdiv_nonneg_iff)
  ultimately show ?thesis unfolding strideCount_def by arith
qed

lemma strideWindows_done: "0 < w \<Longrightarrow> \<not> f < t \<Longrightarrow> strideWindows f t w = []"
  by (simp add: strideWindows_def strideCount_done)

lemma strideWindows_step:
  assumes w: "0 < w" and lt: "f < t"
  shows "strideWindows f t w
         = \<lparr>from_hour = f, to_hour = min (f + w) t\<rparr> # strideWindows (f + w) t w"
proof -
  have shift: "strideWindow f t w (Suc i) = strideWindow (f + w) t w i" for i
    by (simp add: strideWindow_def algebra_simps)
  have "strideWindows f t w
        = strideWindow f t w 0 # map (strideWindow f t w \<circ> Suc) [0 ..< strideCount (f + w) t w]"
    unfolding strideWindows_def strideCount_step [OF w lt]
    by (simp add: upt_conv_Cons map_Suc_upt [symmetric] del: upt_Suc)
  also have "strideWindow f t w \<circ> Suc = strideWindow (f + w) t w"
    by (rule ext) (simp add: shift)
  finally show ?thesis by (simp add: strideWindows_def strideWindow_def)
qed

lemma buildWindowsLoop_stride:
  assumes w: "0 < w"
  shows "buildWindowsLoop f t w acc = Some (acc @ strideWindows f t w)"
proof (induction "nat (t - f)" arbitrary: f acc rule: less_induct)
  case less
  show ?case
  proof (cases "f < t")
    case False
    then show ?thesis
      by (subst buildWindowsLoop.simps) (simp add: strideWindows_done [OF w])
  next
    case True
    with w have smaller: "nat (t - (f + w)) < nat (t - f)" by arith
    show ?thesis
      by (subst buildWindowsLoop.simps)
         (simp add: True less.hyps [OF smaller] strideWindows_step [OF w True])
  qed
qed

lemma buildWindows_stride:
  "0 < w \<Longrightarrow> buildWindows f t w = Some (strideWindows f t w)"
  by (simp add: buildWindows_def buildWindowsLoop_stride)

lemma strideCount_bounds:
  assumes w: "0 < w" and lt: "f < t"
  shows "0 < strideCount f t w"
    and "t \<le> f + int (strideCount f t w) * w"
    and "f + (int (strideCount f t w) - 1) * w < t"
proof -
  define q where "q = (t - f + w - 1) div w"
  have qle: "q * w \<le> t - f + w - 1"
  proof -
    have "0 \<le> (t - f + w - 1) mod w" using w by simp
    moreover have "t - f + w - 1 = q * w + (t - f + w - 1) mod w"
      unfolding q_def by simp
    ultimately show ?thesis by arith
  qed
  have qgt: "t - f + w - 1 < (q + 1) * w"
  proof -
    have "(t - f + w - 1) mod w < w" using w by simp
    moreover have "t - f + w - 1 = q * w + (t - f + w - 1) mod w"
      unfolding q_def by simp
    ultimately show ?thesis by (simp add: algebra_simps)
  qed
  have qpos: "0 < q"
  proof (rule ccontr)
    assume "\<not> 0 < q"
    then have "q \<le> 0" by simp
    then have "q * w \<le> 0" using w by (simp add: mult_le_0_iff)
    then have "(q + 1) * w \<le> w" by (simp add: algebra_simps)
    with qgt lt show False by arith
  qed
  have n: "int (strideCount f t w) = q"
    using qpos by (simp add: strideCount_def q_def)
  show "0 < strideCount f t w" using qpos n by arith
  show "t \<le> f + int (strideCount f t w) * w"
    using qgt unfolding n by (simp add: algebra_simps)
  show "f + (int (strideCount f t w) - 1) * w < t"
    using qle unfolding n by (simp add: algebra_simps)
qed

lemma length_strideWindows: "length (strideWindows f t w) = strideCount f t w"
  by (simp add: strideWindows_def)

lemma nth_strideWindows:
  "i < strideCount f t w \<Longrightarrow> strideWindows f t w ! i = strideWindow f t w i"
  by (simp add: strideWindows_def)

lemma strideWindow_full:
  assumes w: "0 < w" and lt: "f < t" and i: "Suc i < strideCount f t w"
  shows "to_hour (strideWindow f t w i) = f + (int i + 1) * w"
proof -
  have "int i + 1 \<le> int (strideCount f t w) - 1" using i by arith
  then have "(int i + 1) * w \<le> (int (strideCount f t w) - 1) * w"
    using w by (simp add: mult_right_mono)
  with strideCount_bounds(3) [OF w lt] have "f + (int i + 1) * w < t" by arith
  then show ?thesis by (simp add: strideWindow_def)
qed

lemma strideWindow_last:
  assumes w: "0 < w" and lt: "f < t" and i: "Suc i = strideCount f t w"
  shows "to_hour (strideWindow f t w i) = t"
proof -
  have "int (strideCount f t w) = int i + 1" using i by arith
  with strideCount_bounds(2) [OF w lt] show ?thesis by (simp add: strideWindow_def)
qed

lemma strideWindow_from_lt_to:
  assumes w: "0 < w" and lt: "f < t" and i: "i < strideCount f t w"
  shows "from_hour (strideWindow f t w i) < to_hour (strideWindow f t w i)"
proof -
  have "int i \<le> int (strideCount f t w) - 1" using i by arith
  then have "int i * w \<le> (int (strideCount f t w) - 1) * w"
    using w by (simp add: mult_right_mono)
  with strideCount_bounds(3) [OF w lt] have "f + int i * w < t" by arith
  moreover have "f + int i * w < f + (int i + 1) * w" using w by (simp add: algebra_simps)
  ultimately show ?thesis by (simp add: strideWindow_def)
qed

lemma strideWindow_width:
  "to_hour (strideWindow f t w i) - from_hour (strideWindow f t w i) \<le> w"
  by (simp add: strideWindow_def algebra_simps)

text \<open>
  Claim C5. For \<open>0 \<le> fromHour < toHour \<le> 24\<close> and a window size of 1 or 2,
  \<open>buildWindows\<close> returns, and what it returns is the list obtained by striding from
  \<open>fromHour\<close> in steps of the window size with the end clamped to \<open>toHour\<close>. The
  list is not empty, starts at \<open>fromHour\<close>, ends at \<open>toHour\<close>, every window
  starts where the previous one ends, every window is non-empty and at most one window
  size long, and every window but the last is exactly one window size long. In
  particular \<open>buildWindows(0, 5, 2) = [{0,2},{2,4},{4,5}]\<close>.
\<close>

theorem buildWindows_covers:
  assumes range: "0 \<le> fromHour" "fromHour < toHour" "toHour \<le> 24"
    and size: "windowSizeHours = 1 \<or> windowSizeHours = 2"
  shows "\<exists>ws. buildWindows fromHour toHour windowSizeHours = Some ws
     \<and> ws = strideWindows fromHour toHour windowSizeHours
     \<and> ws \<noteq> []
     \<and> from_hour (hd ws) = fromHour
     \<and> to_hour (last ws) = toHour
     \<and> (\<forall>i. Suc i < length ws \<longrightarrow> from_hour (ws ! Suc i) = to_hour (ws ! i))
     \<and> (\<forall>i. i < length ws \<longrightarrow> from_hour (ws ! i) < to_hour (ws ! i)
            \<and> to_hour (ws ! i) - from_hour (ws ! i) \<le> windowSizeHours)
     \<and> (\<forall>i. Suc i < length ws \<longrightarrow>
            to_hour (ws ! i) - from_hour (ws ! i) = windowSizeHours)
     \<and> buildWindows 0 5 2
         = Some [\<lparr>from_hour = 0, to_hour = 2\<rparr>, \<lparr>from_hour = 2, to_hour = 4\<rparr>,
                 \<lparr>from_hour = 4, to_hour = 5\<rparr>]"
proof -
  let ?f = fromHour and ?t = toHour and ?w = windowSizeHours
  let ?ws = "strideWindows ?f ?t ?w"
  let ?n = "strideCount ?f ?t ?w"
  have w: "0 < ?w" using size by auto
  have lt: "?f < ?t" by (rule range(2))
  have len: "length ?ws = ?n" by (rule length_strideWindows)
  have npos: "0 < ?n" by (rule strideCount_bounds(1) [OF w lt])
  have run: "buildWindows ?f ?t ?w = Some ?ws" by (rule buildWindows_stride [OF w])
  have nonempty: "?ws \<noteq> []" using npos len by auto
  have first: "from_hour (hd ?ws) = ?f"
    using npos nonempty by (simp add: hd_conv_nth nth_strideWindows strideWindow_def)
  have final: "to_hour (last ?ws) = ?t"
  proof -
    obtain k where k: "?n = Suc k" using npos by (cases ?n) auto
    then have "last ?ws = strideWindow ?f ?t ?w k"
      using nonempty len by (simp add: last_conv_nth nth_strideWindows)
    then show ?thesis using strideWindow_last [OF w lt k [symmetric]] by simp
  qed
  have contiguous: "from_hour (?ws ! Suc i) = to_hour (?ws ! i)" if "Suc i < length ?ws" for i
  proof -
    have "Suc i < ?n" "i < ?n" using that len by auto
    then show ?thesis
      using strideWindow_full [OF w lt \<open>Suc i < ?n\<close>]
      by (simp add: nth_strideWindows) (simp add: strideWindow_def)
  qed
  have proper: "from_hour (?ws ! i) < to_hour (?ws ! i)
      \<and> to_hour (?ws ! i) - from_hour (?ws ! i) \<le> ?w" if "i < length ?ws" for i
    using that len strideWindow_from_lt_to [OF w lt, of i] strideWindow_width [of ?f ?t ?w i]
    by (simp add: nth_strideWindows)
  have full: "to_hour (?ws ! i) - from_hour (?ws ! i) = ?w" if "Suc i < length ?ws" for i
  proof -
    have "Suc i < ?n" "i < ?n" using that len by auto
    then show ?thesis
      using strideWindow_full [OF w lt \<open>Suc i < ?n\<close>]
      by (simp add: nth_strideWindows) (simp add: strideWindow_def algebra_simps)
  qed
  have example: "buildWindows 0 5 2
         = Some [\<lparr>from_hour = 0, to_hour = 2\<rparr>, \<lparr>from_hour = 2, to_hour = 4\<rparr>,
                 \<lparr>from_hour = 4, to_hour = 5\<rparr>]"
    by (simp add: buildWindows_stride strideWindows_def strideCount_def strideWindow_def
        upt_conv_Cons)
  show ?thesis
    using run nonempty first final contiguous proper full example by blast
qed

theorem buildWindows_covers_witness:
  "(0::int) \<le> 7 \<and> (7::int) < 10 \<and> (10::int) \<le> 24
   \<and> buildWindows 7 10 2 = Some [\<lparr>from_hour = 7, to_hour = 9\<rparr>, \<lparr>from_hour = 9, to_hour = 10\<rparr>]
   \<and> to_hour (last (strideWindows 7 10 2)) = 10"
proof -
  have ws: "strideWindows 7 10 2 = [\<lparr>from_hour = 7, to_hour = 9\<rparr>, \<lparr>from_hour = 9, to_hour = 10\<rparr>]"
    by (simp add: strideWindows_def strideCount_def strideWindow_def upt_conv_Cons)
  show ?thesis
    using buildWindows_covers [of 7 10 2] by (simp add: ws)
qed

section \<open>Properties of normalize and buildSongKey\<close>

subsection \<open>The bracket scan\<close>









subsection \<open>The clause scan\<close>
























subsection \<open>Collapsing and trimming\<close>





subsection \<open>Appended fragments and clauses\<close>












subsection \<open>The song key\<close>

lemmas class_defs = isLineTerminator_def isWordChar_def isCombiningMark_def isLowerAlnum_def
  isWhiteSpace_def

lemmas normalize_defs = stripCombiningMarks_def matchBracket_def wordCharAt_def wordBoundary_def
  headOption_def dotStarToEnd_def matchClauseTail_def matchClause_def trim_def decompose_def
  canonicalize_def normalize_def buildSongKey_def ascii_def

lemmas latin1_defs = latin1Engine_def latin1Lower_def latin1Decomposition_def
  accents4_def accents6_def





section \<open>Properties of chooseBestTrack\<close>

lemma find_filter_hd: "find P xs = (case filter P xs of [] \<Rightarrow> None | y # _ \<Rightarrow> Some y)"
  by (induction xs) auto

lemma hd_insort_key:
  "hd (insort_key f x ys) = (if ys = [] \<or> f x \<le> f (hd ys) then x else hd ys)"
  by (cases ys) auto

lemma sort_key_Nil_iff: "sort_key f xs = [] \<longleftrightarrow> xs = []"
  by (metis length_sort list.size(3) length_0_conv)

lemma hd_sort_key_first_min:
  fixes f :: "'a \<Rightarrow> rat"
  shows "xs \<noteq> [] \<Longrightarrow> find (\<lambda>x. list_all (\<lambda>y. f x \<le> f y) xs) xs = Some (hd (sort_key f xs))"
proof (induction xs)
  case Nil
  then show ?case by simp
next
  case (Cons x xs)
  show ?case
  proof (cases "xs = []")
    case True
    then show ?thesis by simp
  next
    case False
    let ?m = "hd (sort_key f xs)"
    have IH: "find (\<lambda>a. list_all (\<lambda>y. f a \<le> f y) xs) xs = Some ?m" by (rule Cons.IH [OF False])
    then have m_in: "?m \<in> set xs" and m_min: "\<forall>y \<in> set xs. f ?m \<le> f y"
      by (auto simp: find_Some_iff list_all_iff)
    have hd: "hd (sort_key f (x # xs)) = (if f x \<le> f ?m then x else ?m)"
      using False by (simp add: hd_insort_key sort_key_Nil_iff)
    show ?thesis
    proof (cases "f x \<le> f ?m")
      case True
      with m_min have "list_all (\<lambda>y. f x \<le> f y) (x # xs)" by (auto simp: list_all_iff)
      with True hd show ?thesis by simp
    next
      case gt: False
      with m_in have nx: "\<not> list_all (\<lambda>y. f x \<le> f y) (x # xs)" by (auto simp: list_all_iff)
      have "(\<lambda>a. list_all (\<lambda>y. f a \<le> f y) (x # xs)) a = (\<lambda>a. list_all (\<lambda>y. f a \<le> f y) xs) a"
        if "a \<in> set xs" "list_all (\<lambda>y. f a \<le> f y) xs" for a
      proof -
        from that m_in have "f a \<le> f ?m" by (auto simp: list_all_iff)
        with gt have "f a \<le> f x" by simp
        with that show ?thesis by simp
      qed
      then have "find (\<lambda>a. list_all (\<lambda>y. f a \<le> f y) (x # xs)) xs
                 = find (\<lambda>a. list_all (\<lambda>y. f a \<le> f y) xs) xs"
        by (intro find_cong) (auto simp: list_all_iff)
      with nx IH hd gt show ?thesis by simp
    qed
  qed
qed

lemma highestScoring_sorted:
  "cs \<noteq> [] \<Longrightarrow> highestScoring cs = Some (hd (sort_key (\<lambda>c. - score c) cs))"
  using hd_sort_key_first_min [of cs "\<lambda>c. - score c"] by (simp add: highestScoring_def)

lemma highestScoring_Nil: "highestScoring [] = None"
  by (simp add: highestScoring_def)

lemma find_album_sorted:
  "find (\<lambda>c. album_type (album (track c)) = ascii ''album'') (sort_key (\<lambda>c. - score c) cs)
   = highestScoring (filter isAlbum cs)"
proof -
  let ?f = "\<lambda>c. - score c"
  have P: "(\<lambda>c. album_type (album (track c)) = ascii ''album'') = isAlbum"
    by (rule ext) (simp add: isAlbum_def)
  have sorted: "filter isAlbum (sort_key ?f cs) = sort_key ?f (filter isAlbum cs)"
    by (rule filter_sort)
  show ?thesis
  proof (cases "filter isAlbum cs = []")
    case True
    then show ?thesis
      unfolding P find_filter_hd [of isAlbum] sorted by (simp add: highestScoring_Nil)
  next
    case False
    then obtain y ys where ys: "sort_key ?f (filter isAlbum cs) = y # ys"
      by (cases "sort_key ?f (filter isAlbum cs)") (auto simp: sort_key_Nil_iff)
    then show ?thesis
      unfolding P find_filter_hd [of isAlbum] sorted highestScoring_sorted [OF False] by simp
  qed
qed

lemma pickBest_preferAlbum:
  assumes "cs \<noteq> []"
  shows "\<exists>t. pickBest cs = Inr t \<and> preferAlbum cs = Some t"
proof -
  let ?sorted = "sort_key (\<lambda>c. - score c) cs"
  obtain best rest where sorted: "?sorted = best # rest"
    using assms by (cases ?sorted) (auto simp: sort_key_Nil_iff)
  have top: "highestScoring cs = Some best"
    using highestScoring_sorted [OF assms] sorted by simp
  show ?thesis
  proof (cases "highestScoring (filter isAlbum cs)")
    case None
    have "pickBest cs = Inr (track best)"
      unfolding pickBest_def Let_def find_album_sorted None using assms sorted by simp
    moreover have "preferAlbum cs = Some (track best)"
      by (simp add: preferAlbum_def top None)
    ultimately show ?thesis by simp
  next
    case (Some bestAlbum)
    let ?t = "if isSingle best \<and> score best - 12 \<le> score bestAlbum
              then track bestAlbum else track best"
    have "pickBest cs = Inr ?t"
      unfolding pickBest_def Let_def find_album_sorted Some using assms sorted
      by (simp add: isSingle_def)
    moreover have "preferAlbum cs = Some ?t"
      by (simp add: preferAlbum_def top Some)
    ultimately show ?thesis by simp
  qed
qed

lemma list_ex_names:
  "list_ex (\<lambda>a. a = e \<or> stringIncludes a e \<or> stringIncludes e a) (filter (\<lambda>a. length a > 0) names)
   \<longleftrightarrow> (\<exists>a \<in> set names. a \<noteq> [] \<and> nameMatches e a)"
  by (auto simp: list_ex_iff nameMatches_def)

lemma scoreCandidate_specScore:
  "scoreCandidate js (normalize js (title song)) (normalize js (artist song)) t
   = \<lparr>track = t, score = specScore js song t\<rparr>"
proof -
  have distinct: "ascii ''album'' \<noteq> ascii ''single''" by (simp add: ascii_def)
  show ?thesis
    unfolding scoreCandidate_def specScore_def Let_def list_ex_names
      titlePoints_def artistPoints_def releasePoints_def popularityPoints_def
    using distinct by auto
qed

lemmas example_defs = waterloo_def waterlooSingle_def waterlooAlbum_def waterlooCover_def

lemma normalize_strings:
  "normalize latin1Engine (ascii ''Waterloo'') = ascii ''waterloo''"
  "normalize latin1Engine (ascii ''ABBA'') = ascii ''abba''"
  "normalize latin1Engine (ascii ''Waterloo - Remastered'') = ascii ''waterloo remastered''"
  "normalize latin1Engine (ascii ''!!!'') = []"
  by (simp_all add: normalize_defs class_defs latin1_defs)

lemma normalize_examples:
  "normalize latin1Engine (title waterloo) = ascii ''waterloo''"
  "normalize latin1Engine (artist waterloo) = ascii ''abba''"
  "normalize latin1Engine (track_name waterlooSingle) = ascii ''waterloo''"
  "normalize latin1Engine (track_name waterlooAlbum) = ascii ''waterloo remastered''"
  "normalize latin1Engine (track_name waterlooCover) = ascii ''waterloo''"
  "map (\<lambda>a. normalize latin1Engine (artist_name a)) (artists waterlooSingle) = [ascii ''abba'']"
  "map (\<lambda>a. normalize latin1Engine (artist_name a)) (artists waterlooAlbum) = [ascii ''abba'']"
  "map (\<lambda>a. normalize latin1Engine (artist_name a)) (artists waterlooCover) = [[]]"
  by (simp_all add: example_defs normalize_strings)

lemma release_examples:
  "album_type (album waterlooSingle) = ascii ''single''"
  "album_type (album waterlooAlbum) = ascii ''album''"
  "album_type (album waterlooCover) = ascii ''album''"
  "popularity waterlooSingle = Some 60"
  "popularity waterlooAlbum = Some 45"
  "popularity waterlooCover = Some 50"
  by (simp_all add: example_defs)

lemma specScore_examples:
  "specScore latin1Engine waterloo waterlooSingle = 212"
  "specScore latin1Engine waterloo waterlooAlbum = 206"
  "specScore latin1Engine waterloo waterlooCover = 148 + 10 / 3"
  "claimedScore latin1Engine waterloo waterlooCover = 248 + 10 / 3"
  unfolding specScore_def claimedScore_def normalize_examples release_examples
  by (simp_all add: titlePoints_def artistPoints_def claimedArtistPoints_def nameMatches_def
      releasePoints_def popularityPoints_def ascii_def)

lemma pickBest_band:
  assumes s: "album_type (album s) = ascii ''single''" and a: "album_type (album a) = ascii ''album''"
  shows "pickBest [\<lparr>track = s, score = 150\<rparr>, \<lparr>track = a, score = 140\<rparr>] = Inr a"
    and "pickBest [\<lparr>track = s, score = 150\<rparr>, \<lparr>track = a, score = 100\<rparr>] = Inr s"
proof -
  have ne: "ascii ''single'' \<noteq> ascii ''album''" by (simp add: ascii_def)
  show "pickBest [\<lparr>track = s, score = 150\<rparr>, \<lparr>track = a, score = 140\<rparr>] = Inr a"
    using s a ne by (simp add: pickBest_def)
  show "pickBest [\<lparr>track = s, score = 150\<rparr>, \<lparr>track = a, score = 100\<rparr>] = Inr s"
    using s a ne by (simp add: pickBest_def)
qed

text \<open>
  Claim C1, amended. For every song and every non-empty list of candidates,
  \<open>chooseBestTrack\<close> returns a track. Each candidate is scored with the sum of the
  title points (120 for equal normalized titles, else 75 when one contains the other,
  else 0), the artist points (100 when the normalized source artist is not empty and
  an artist name of the candidate that does not normalize to the empty string equals
  it, contains it or is contained in it), the release points (28 for an album, -12
  for a single, else 0) and \<open>min(popularity, 100) / 15\<close>. The track returned is the
  first candidate with the highest score, unless that candidate is a single and the
  first album with the highest score among the albums scores at least its score less
  12: then that album is returned. So a single at 150 loses to an album at 140 and
  wins over an album at 100.
\<close>

theorem chooseBestTrack_prefers_album:
  assumes "candidates \<noteq> []"
  shows "\<exists>t. chooseBestTrack js song candidates = Inr t
            \<and> preferAlbum (map (\<lambda>c. \<lparr>track = c, score = specScore js song c\<rparr>) candidates) = Some t
            \<and> (album_type (album s) = ascii ''single'' \<and> album_type (album a) = ascii ''album''
                \<longrightarrow> pickBest [\<lparr>track = s, score = 150\<rparr>, \<lparr>track = a, score = 140\<rparr>] = Inr a
                  \<and> pickBest [\<lparr>track = s, score = 150\<rparr>, \<lparr>track = a, score = 100\<rparr>] = Inr s)"
proof -
  let ?scored = "map (scoreCandidate js (normalize js (title song)) (normalize js (artist song)))
                   candidates"
  have scored: "?scored = map (\<lambda>c. \<lparr>track = c, score = specScore js song c\<rparr>) candidates"
    by (simp add: scoreCandidate_specScore)
  have "?scored \<noteq> []" using assms by simp
  from pickBest_preferAlbum [OF this]
  obtain t where "pickBest ?scored = Inr t" "preferAlbum ?scored = Some t" by blast
  then have "chooseBestTrack js song candidates = Inr t
      \<and> preferAlbum (map (\<lambda>c. \<lparr>track = c, score = specScore js song c\<rparr>) candidates) = Some t"
    unfolding scored by (simp add: chooseBestTrack_def Let_def scored)
  then show ?thesis using pickBest_band [of s a] by blast
qed

theorem chooseBestTrack_prefers_album_witness:
  "[waterlooSingle, waterlooAlbum] \<noteq> []
   \<and> specScore latin1Engine waterloo waterlooSingle = 212
   \<and> specScore latin1Engine waterloo waterlooAlbum = 206
   \<and> chooseBestTrack latin1Engine waterloo [waterlooSingle, waterlooAlbum] = Inr waterlooAlbum
   \<and> album_type (album waterlooSingle) = ascii ''single''
   \<and> album_type (album waterlooAlbum) = ascii ''album''
   \<and> pickBest [\<lparr>track = waterlooSingle, score = 150\<rparr>, \<lparr>track = waterlooAlbum, score = 140\<rparr>]
       = Inr waterlooAlbum"
proof -
  have ne: "ascii ''single'' \<noteq> ascii ''album''" by (simp add: ascii_def)
  note types = release_examples(1,2)
  have "preferAlbum [\<lparr>track = waterlooSingle, score = 212\<rparr>, \<lparr>track = waterlooAlbum, score = 206\<rparr>]
        = Some waterlooAlbum"
    using ne by (simp add: preferAlbum_def highestScoring_def isAlbum_def isSingle_def types)
  with chooseBestTrack_prefers_album
         [of "[waterlooSingle, waterlooAlbum]" latin1Engine waterloo waterlooSingle waterlooAlbum]
  show ?thesis by (auto simp: specScore_examples types)
qed

theorem chooseBestTrack_prefers_album_counterexample:
  "normalize latin1Engine (artist waterloo) \<noteq> []
   \<and> stringIncludes (normalize latin1Engine (artist waterloo)) (normalize latin1Engine (ascii ''!!!''))
   \<and> score (scoreCandidate latin1Engine (normalize latin1Engine (title waterloo))
              (normalize latin1Engine (artist waterloo)) waterlooCover) = 148 + 10 / 3
   \<and> claimedScore latin1Engine waterloo waterlooCover = 248 + 10 / 3"
proof -
  have "score (scoreCandidate latin1Engine (normalize latin1Engine (title waterloo))
              (normalize latin1Engine (artist waterloo)) waterlooCover)
        = specScore latin1Engine waterloo waterlooCover"
    by (simp only: scoreCandidate_specScore ScoredCandidate.simps)
  then show ?thesis
    unfolding specScore_examples normalize_examples normalize_strings by (simp add: ascii_def)
qed

section \<open>Properties of fetchWithRetry\<close>








section \<open>Properties of the sync command\<close>

subsection \<open>Rules for actions\<close>

lemma andThen_Inr:
  assumes "andThen m f t = (Inr y, events)"
  obtains x e1 e2 where "m t = (Inr x, e1)" "f x (t + length e1) = (Inr y, e2)" "events = e1 @ e2"
  using assms by (auto simp: andThen_def split: prod.splits sum.splits)

lemma andThen_cases:
  obtains (failed) e e1 where "m t = (Inl e, e1)" "andThen m f t = (Inl e, e1)"
  | (went_on) x e1 r e2 where "m t = (Inr x, e1)" "f x (t + length e1) = (r, e2)"
      "andThen m f t = (r, e1 @ e2)"
proof (cases "m t")
  case (Pair r1 e1)
  show ?thesis
  proof (cases r1)
    case (Inl e)
    with Pair failed show ?thesis by (simp add: andThen_def)
  next
    case (Inr x)
    obtain r e2 where "f x (t + length e1) = (r, e2)" by (cases "f x (t + length e1)")
    with Pair Inr went_on show ?thesis by (simp add: andThen_def)
  qed
qed

lemma emitsOnly_succeed [intro!]: "emitsOnly P (succeed x)"
  by (simp add: emitsOnly_def succeed_def)

lemma emitsOnly_throw [intro!]: "emitsOnly P (throw e)"
  by (simp add: emitsOnly_def throw_def)

lemma emitsOnly_liftResult [intro!]: "emitsOnly P (liftResult r)"
  by (simp add: emitsOnly_def liftResult_def)

lemma emitsOnly_readClock [intro!]: "emitsOnly P (readClock w)"
  by (simp add: emitsOnly_def readClock_def)

lemma emitsOnly_perform: "P ev \<Longrightarrow> emitsOnly P (perform ev respond)"
  by (simp add: emitsOnly_def perform_def)

lemma emitsOnly_emit: "P ev \<Longrightarrow> emitsOnly P (emit ev)"
  by (simp add: emit_def emitsOnly_perform)

lemma emitsOnly_andThen:
  assumes "emitsOnly P m" and "\<And>x. emitsOnly P (f x)"
  shows "emitsOnly P (andThen m f)"
  unfolding emitsOnly_def
proof
  fix t
  show "list_all P (snd (andThen m f t))"
  proof (cases rule: andThen_cases [of m t f])
    case (failed e e1)
    with assms(1) [unfolded emitsOnly_def, rule_format, of t] show ?thesis by simp
  next
    case (went_on x e1 r e2)
    with assms(1) [unfolded emitsOnly_def, rule_format, of t]
      assms(2) [unfolded emitsOnly_def, rule_format, of x "t + length e1"]
    show ?thesis by simp
  qed
qed

lemma emitsOnly_weaken: "emitsOnly P a \<Longrightarrow> (\<And>ev. P ev \<Longrightarrow> Q ev) \<Longrightarrow> emitsOnly Q a"
  by (auto simp: emitsOnly_def list_all_iff)

lemma obeys_succeed: "R [] x \<Longrightarrow> obeys (succeed x) R"
  by (simp add: obeys_def succeed_def)

lemma obeys_throw [intro!]: "obeys (throw e) R"
  by (simp add: obeys_def throw_def)

lemma obeys_liftResult: "(\<And>x. r = Inr x \<Longrightarrow> R [] x) \<Longrightarrow> obeys (liftResult r) R"
  by (simp add: obeys_def liftResult_def)

lemma obeys_readClock: "(\<And>t. R [] (nowAt w t)) \<Longrightarrow> obeys (readClock w) R"
  by (simp add: obeys_def readClock_def)

lemma obeys_perform: "(\<And>t x. respond t = Inr x \<Longrightarrow> R [ev] x) \<Longrightarrow> obeys (perform ev respond) R"
  by (simp add: obeys_def perform_def)

lemma obeys_emit: "R [ev] () \<Longrightarrow> obeys (emit ev) R"
  by (simp add: emit_def obeys_perform)

lemma obeys_andThen:
  assumes "obeys m R1" and "\<And>x. obeys (f x) (R2 x)"
    and "\<And>e1 x e2 y. R1 e1 x \<Longrightarrow> R2 x e2 y \<Longrightarrow> R (e1 @ e2) y"
  shows "obeys (andThen m f) R"
  unfolding obeys_def
proof (intro allI impI)
  fix t y
  assume ok: "fst (andThen m f t) = Inr y"
  obtain events where "andThen m f t = (Inr y, events)" using ok by (cases "andThen m f t") auto
  then show "R (snd (andThen m f t)) y"
  proof (cases rule: andThen_Inr)
    case (1 x e1 e2)
    from assms(1) [unfolded obeys_def, rule_format, of t x] 1(1) have "R1 e1 x" by simp
    moreover from assms(2) [unfolded obeys_def, rule_format, of x "t + length e1" y] 1(2)
    have "R2 x e2 y" by simp
    ultimately show ?thesis using assms(3) 1(3) \<open>andThen m f t = (Inr y, events)\<close> by simp
  qed
qed

lemma obeys_weaken: "obeys a R \<Longrightarrow> (\<And>e x. R e x \<Longrightarrow> R' e x) \<Longrightarrow> obeys a R'"
  by (auto simp: obeys_def)

lemma obeysD: "obeys a R \<Longrightarrow> a t = (Inr x, events) \<Longrightarrow> R events x"
  unfolding obeys_def by (drule spec [of _ t], drule spec [of _ x]) simp

lemma emitsOnlyD: "emitsOnly P a \<Longrightarrow> a t = (r, events) \<Longrightarrow> list_all P events"
  unfolding emitsOnly_def by (drule spec [of _ t]) simp

subsection \<open>Duplicate suppression\<close>

lemma grows_refl [simp]: "grows v v"
  by (simp add: grows_def)

lemma grows_trans: "grows a b \<Longrightarrow> grows b c \<Longrightarrow> grows a c"
  by (auto simp: grows_def)

lemma grows_stats [simp]: "grows v (v'\<lparr>stats := s\<rparr>) = grows v v'"
  "grows v (v'\<lparr>completedWindows := n\<rparr>) = grows v v'"
  "grows v (v'\<lparr>state := st\<rparr>) = grows v v'"
  by (simp_all add: grows_def)


lemma songStep_skips:
  assumes "recorded v (songKeyOf w song)"
  shows "\<exists>v'. songStep w d (i, song) (v, uris) t = (Inr (v', uris), [])
             \<and> grows v v' \<and> songKeyOf w song \<in> runSeenSongKeys v'
             \<and> state v' = state v \<and> completedWindows v' = completedWindows v"
  using assms by (auto simp: songStep_def recorded_def succeed_def Let_def grows_def)

lemma songStep_result:
  assumes "songStep w d (i, song) (v, uris) t = (Inr (v', uris'), events)"
  shows "grows v v' \<and> songKeyOf w song \<in> runSeenSongKeys v' \<and> state v' = state v
    \<and> completedWindows v' = completedWindows v
    \<and> (uris' = uris
        \<or> (\<exists>found t' e'. findTrackForSong w song t' = (Inr (Some found), e')
              \<and> uris' = uris @ [uri found]
              \<and> \<not> recorded v (songKeyOf w song)
              \<and> track_id found \<notin> trackIds (playlistIndex v)
              \<and> track_id found \<in> trackIds (playlistIndex v')
              \<and> matchedSongKeyOf w found \<in> songKeys (playlistIndex v')))"
proof (cases "recorded v (songKeyOf w song)")
  case True
  from songStep_skips [OF True, of d i uris t] assms show ?thesis by auto
next
  case False
  then have nk: "songKeyOf w song \<notin> runSeenSongKeys v"
    "songKeyOf w song \<notin> songKeys (playlistIndex v)"
    by (simp_all add: recorded_def)
  let ?pause = "if d > 0 \<and> i > 0 then emit (Delay d) else succeed ()"
  obtain e0 where pause: "?pause t = (Inr (), e0)"
    by (cases "d > 0 \<and> i > 0") (auto simp: emit_def perform_def succeed_def)
  obtain r1 e1 where find: "findTrackForSong w song (t + length e0) = (r1, e1)"
    by (cases "findTrackForSong w song (t + length e0)")
  from assms nk pause find have ok: "\<exists>found. r1 = Inr found"
    by (cases r1) (auto simp: songStep_def Let_def andThen_def)
  then obtain found where r1: "r1 = Inr found" by blast
  show ?thesis
  proof (cases found)
    case None
    with assms nk pause find r1 show ?thesis
      by (auto simp: songStep_def Let_def andThen_def succeed_def grows_def)
  next
    case (Some spotifyTrack)
    show ?thesis
    proof (cases "track_id spotifyTrack \<in> trackIds (playlistIndex v)")
      case True
      with assms nk pause find r1 Some show ?thesis
        by (auto simp: songStep_def Let_def andThen_def succeed_def grows_def)
    next
      case new: False
      with assms nk pause find r1 Some have
        "v' = v\<lparr>runSeenSongKeys := insert (songKeyOf w song) (runSeenSongKeys v),
               playlistIndex := (playlistIndex v)
                 \<lparr>trackIds := insert (track_id spotifyTrack) (trackIds (playlistIndex v)),
                  songKeys := insert (matchedSongKeyOf w spotifyTrack)
                                (insert (songKeyOf w song) (songKeys (playlistIndex v)))\<rparr>,
               stats := (stats v)\<lparr>songsMatched := songsMatched (stats v) + 1\<rparr>\<rparr>"
        and "uris' = uris @ [uri spotifyTrack]"
        by (auto simp: songStep_def Let_def andThen_def succeed_def)
      with new False find r1 Some show ?thesis
        by (auto simp: grows_def)
    qed
  qed
qed

lemma processSongs_grows:
  "processSongs w d entries (v, uris) t = (Inr (v', uris'), events) \<Longrightarrow>
   grows v v' \<and> state v' = state v \<and> completedWindows v' = completedWindows v"
proof (induction entries arbitrary: v uris t events)
  case Nil
  then show ?case by (simp add: succeed_def)
next
  case (Cons entry entries)
  obtain i song where entry: "entry = (i, song)" by (cases entry)
  from Cons.prems
  have "andThen (songStep w d entry (v, uris)) (processSongs w d entries) t
        = (Inr (v', uris'), events)" by simp
  then show ?case
  proof (cases rule: andThen_Inr)
    case (1 x e1 e2)
    obtain v1 uris1 where x: "x = (v1, uris1)" by (cases x)
    from songStep_result [OF 1(1) [unfolded entry x]] Cons.IH [OF 1(2) [unfolded x]]
    show ?thesis by (auto intro: grows_trans)
  qed
qed

subsection \<open>One window\<close>

lemma addAccumulated_events:
  "addAccumulated w args pid v uris t = (r, events) \<Longrightarrow>
   events = (if \<not> dryRun args \<and> uris \<noteq> []
             then [AddTracksToPlaylist pid (rev uris) (Some 0)] else [])"
  by (auto simp: addAccumulated_def andThen_def perform_def succeed_def
      split: if_splits sum.splits)

lemma addAccumulated_result:
  "addAccumulated w args pid v uris t = (Inr v', events) \<Longrightarrow>
   v' = (if \<not> dryRun args \<and> uris \<noteq> []
         then v\<lparr>stats := (stats v)\<lparr>tracksAdded := tracksAdded (stats v) + length uris\<rparr>\<rparr>
         else v)"
  by (auto simp: addAccumulated_def andThen_def perform_def succeed_def
      split: if_splits sum.splits)

lemma commitWindow_result:
  assumes "commitWindow w args window v t = (Inr v', events)"
  shows "(dryRun args \<and> v' = v \<and> events = [])
    \<or> (\<not> dryRun args
        \<and> isWindowFullyInPastInWarsaw (nowAt w t) (date args) (to_hour window) = Inr True
        \<and> v' = v\<lparr>state := markWindowProcessed (state v) (stationId args) (date args)
                              (windowKeyOf window)\<rparr>
        \<and> events = [SaveState (state v')])
    \<or> (\<not> dryRun args
        \<and> isWindowFullyInPastInWarsaw (nowAt w t) (date args) (to_hour window) = Inr False
        \<and> v' = v\<lparr>stats := (stats v)\<lparr>windowsNotMarkedNotInPast :=
                                        windowsNotMarkedNotInPast (stats v) + 1\<rparr>\<rparr>
        \<and> events = [])"
proof (cases "dryRun args")
  case True
  with assms show ?thesis by (simp add: commitWindow_def succeed_def)
next
  case False
  show ?thesis
  proof (cases "isWindowFullyInPastInWarsaw (nowAt w t) (date args) (to_hour window)")
    case (Inl e)
    with assms False show ?thesis
      by (simp add: commitWindow_def andThen_def readClock_def liftResult_def)
  next
    case (Inr past)
    with assms False show ?thesis
      by (cases past)
         (auto simp: commitWindow_def andThen_def readClock_def liftResult_def saveState_def
            perform_def succeed_def Let_def split: sum.splits)
  qed
qed

lemma commitWindow_events:
  "commitWindow w args window v t = (r, events) \<Longrightarrow>
   events = [] \<or> (\<not> dryRun args
      \<and> isWindowFullyInPastInWarsaw (nowAt w t) (date args) (to_hour window) = Inr True
      \<and> events = [SaveState (markWindowProcessed (state v) (stationId args) (date args)
                               (windowKeyOf window))])"
  by (auto simp: commitWindow_def andThen_def readClock_def liftResult_def saveState_def
      perform_def succeed_def Let_def split: sum.splits if_splits)

lemma scrapeWindow_result:
  assumes "scrapeWindow w args pid n window v t = (Inr v', events)"
  obtains songs v2 uris e2 v3 e3 v4 e4 where
    "scrapeSongsFromSource w t
       (buildSourceUrl (stationId args) (date args) (from_hour window) (to_hour window)) = Inr songs"
    "processSongs w (spotifyDelayMs args) (enumerate 0 songs) (countScraped v (length songs), [])
       (t + 1) = (Inr (v2, uris), e2)"
    "addAccumulated w args pid v2 uris (t + 1 + length e2) = (Inr v3, e3)"
    "commitWindow w args window v3 (t + 1 + length e2 + length e3) = (Inr v4, e4)"
    "v' = countProcessed v4"
    "events = ScrapeSongsFromSource
                (buildSourceUrl (stationId args) (date args) (from_hour window) (to_hour window))
              # e2 @ e3 @ e4 @ ProgressUpdate (completedWindows v') n window Done # pausesAfter args"
proof -
  let ?url = "buildSourceUrl (stationId args) (date args) (from_hour window) (to_hour window)"
  from assms have
    "andThen (perform (ScrapeSongsFromSource ?url) (\<lambda>t. scrapeSongsFromSource w t ?url))
       (\<lambda>songs. andThen
          (processSongs w (spotifyDelayMs args) (enumerate 0 songs)
             (countScraped v (length songs), []))
          (\<lambda>(v2, urisToAdd). andThen (addAccumulated w args pid v2 urisToAdd)
             (\<lambda>v3. andThen (commitWindow w args window v3)
                (\<lambda>v4. andThen
                   (emit (ProgressUpdate (completedWindows (countProcessed v4)) n window Done))
                   (\<lambda>u. andThen
                      (if sourceDelayMs args > 0 then emit (Delay (sourceDelayMs args))
                       else succeed ())
                      (\<lambda>u. succeed (countProcessed v4))))))) t
     = (Inr v', events)"
    by (simp add: scrapeWindow_def Let_def countScraped_def countProcessed_def)
  then show ?thesis
  proof (cases rule: andThen_Inr)
    case (1 songs e1 rest1)
    from 1(1) have songs: "scrapeSongsFromSource w t ?url = Inr songs"
      and e1: "e1 = [ScrapeSongsFromSource ?url]"
      by (auto simp: perform_def)
    from 1(2) show ?thesis
    proof (cases rule: andThen_Inr)
      case (1 x e2 rest2)
      obtain v2 uris where x: "x = (v2, uris)" by (cases x)
      from 1(2) have "andThen (addAccumulated w args pid v2 uris)
             (\<lambda>v3. andThen (commitWindow w args window v3)
                (\<lambda>v4. andThen
                   (emit (ProgressUpdate (completedWindows (countProcessed v4)) n window Done))
                   (\<lambda>u. andThen
                      (if sourceDelayMs args > 0 then emit (Delay (sourceDelayMs args))
                       else succeed ())
                      (\<lambda>u. succeed (countProcessed v4))))) (t + length e1 + length e2)
          = (Inr v', rest2)"
        by (simp add: x)
      then show ?thesis
      proof (cases rule: andThen_Inr)
        case (1 v3 e3 rest3)
        from 1(2) show ?thesis
        proof (cases rule: andThen_Inr)
          case (1 v4 e4 rest4)
          from 1(2) have v': "v' = countProcessed v4"
            and rest4: "rest4 = ProgressUpdate (completedWindows (countProcessed v4)) n window Done
                               # pausesAfter args"
            by (auto simp: andThen_def emit_def perform_def succeed_def pausesAfter_def
                split: if_splits)
          show ?thesis
            using that [OF songs, of v2 uris e2 v3 e3 v4 e4]
              \<open>processSongs w (spotifyDelayMs args) (enumerate 0 songs)
                 (countScraped v (length songs), []) (t + length e1) = (Inr x, e2)\<close>
              \<open>addAccumulated w args pid v2 uris (t + length e1 + length e2) = (Inr v3, e3)\<close>
              \<open>commitWindow w args window v3 (t + length e1 + length e2 + length e3) = (Inr v4, e4)\<close>
              \<open>events = e1 @ rest1\<close> \<open>rest1 = e2 @ rest2\<close> \<open>rest2 = e3 @ rest3\<close>
              \<open>rest3 = e4 @ rest4\<close> v' rest4 e1 x
            by simp
        qed
      qed
    qed
  qed
qed

lemma emitsOnly_andThen_obeys:
  assumes "emitsOnly P m" and "obeys m R" and "\<And>e x. R e x \<Longrightarrow> emitsOnly P (f x)"
  shows "emitsOnly P (andThen m f)"
  unfolding emitsOnly_def
proof
  fix t
  show "list_all P (snd (andThen m f t))"
  proof (cases rule: andThen_cases [of m t f])
    case (failed e e1)
    with emitsOnlyD [OF assms(1), of t] show ?thesis by simp
  next
    case (went_on x e1 r e2)
    from obeysD [OF assms(2) went_on(1)] have "emitsOnly P (f x)" by (rule assms(3))
    from emitsOnlyD [OF this went_on(2)] emitsOnlyD [OF assms(1) went_on(1)] went_on(3)
    show ?thesis by simp
  qed
qed

lemma emitsOnly_if:
  "(c \<Longrightarrow> emitsOnly P a) \<Longrightarrow> (\<not> c \<Longrightarrow> emitsOnly P b) \<Longrightarrow> emitsOnly P (if c then a else b)"
  by simp

lemma findTrackForSong_events: "emitsOnly songEvent (findTrackForSong w song)"
  unfolding findTrackForSong_def Let_def
  by (intro emitsOnly_andThen emitsOnly_perform emitsOnly_if emitsOnly_succeed
      emitsOnly_liftResult) (simp add: songEvent_def)

lemma songStep_events: "emitsOnly songEvent (songStep w d entry acc)"
proof -
  obtain i song v uris where "entry = (i, song)" "acc = (v, uris)"
    by (cases entry, cases acc) auto
  moreover have "emitsOnly songEvent (emit (Delay d))"
    by (rule emitsOnly_emit) (simp add: songEvent_def)
  ultimately show ?thesis
    unfolding songStep_def Let_def
    by (auto intro!: emitsOnly_andThen emitsOnly_if findTrackForSong_events
        split: option.splits)
qed

lemma processSongs_events: "emitsOnly songEvent (processSongs w d entries acc)"
  by (induction entries arbitrary: acc) (auto intro!: emitsOnly_andThen songStep_events)

lemma processSongs_obeys:
  "obeys (processSongs w d entries (v, uris))
     (\<lambda>e x. grows v (fst x) \<and> state (fst x) = state v
             \<and> completedWindows (fst x) = completedWindows v)"
  unfolding obeys_def
proof (intro allI impI)
  fix t x
  assume "fst (processSongs w d entries (v, uris) t) = Inr x"
  then obtain e where "processSongs w d entries (v, uris) t = (Inr (fst x, snd x), e)"
    by (cases "processSongs w d entries (v, uris) t") auto
  from processSongs_grows [OF this]
  show "grows v (fst x) \<and> state (fst x) = state v
        \<and> completedWindows (fst x) = completedWindows v" .
qed

lemma addAccumulated_obeys:
  "obeys (addAccumulated w args pid v uris) (\<lambda>e v'. grows v v' \<and> state v' = state v)"
  unfolding obeys_def
proof (intro allI impI)
  fix t x
  assume "fst (addAccumulated w args pid v uris t) = Inr x"
  then obtain e where "addAccumulated w args pid v uris t = (Inr x, e)"
    by (cases "addAccumulated w args pid v uris t") auto
  from addAccumulated_result [OF this] show "grows v x \<and> state x = state v" by auto
qed

lemma addAccumulated_windowEvent:
  "emitsOnly (windowEvent args st window) (addAccumulated w args pid v uris)"
  unfolding emitsOnly_def
proof
  fix t
  obtain r e where a: "addAccumulated w args pid v uris t = (r, e)"
    by (cases "addAccumulated w args pid v uris t")
  from addAccumulated_events [OF a] a
  show "list_all (windowEvent args st window) (snd (addAccumulated w args pid v uris t))"
    by (auto simp: windowEvent_def)
qed

lemma commitWindow_windowEvent:
  "emitsOnly (windowEvent args (state v) window) (commitWindow w args window v)"
  unfolding emitsOnly_def
proof
  fix t
  obtain r e where a: "commitWindow w args window v t = (r, e)"
    by (cases "commitWindow w args window v t")
  from commitWindow_events [OF a] a
  show "list_all (windowEvent args (state v) window) (snd (commitWindow w args window v t))"
    by (auto simp: windowEvent_def)
qed

lemma songEvent_windowEvent: "songEvent ev \<Longrightarrow> windowEvent args st window ev"
  by (cases ev) (auto simp: songEvent_def windowEvent_def)

lemma scrapeWindow_events:
  "emitsOnly (windowEvent args (state v) window) (scrapeWindow w args pid n window v)"
proof -
  let ?P = "windowEvent args (state v) window"
  have step4: "emitsOnly ?P
      (andThen (emit (ProgressUpdate c n window Done))
         (\<lambda>u. andThen (if sourceDelayMs args > 0 then emit (Delay (sourceDelayMs args))
                        else succeed ())
                 (\<lambda>u. succeed x)))" for c x
    by (intro emitsOnly_andThen emitsOnly_emit emitsOnly_if emitsOnly_succeed)
       (simp_all add: windowEvent_def)
  have step3: "emitsOnly ?P
      (andThen (commitWindow w args window v3)
         (\<lambda>v4. andThen (emit (ProgressUpdate (c v4) n window Done))
                 (\<lambda>u. andThen (if sourceDelayMs args > 0 then emit (Delay (sourceDelayMs args))
                                else succeed ())
                         (\<lambda>u. succeed (x v4)))))" if "state v3 = state v" for v3 c x
    using commitWindow_windowEvent [of args v3 window w] that
    by (intro emitsOnly_andThen step4) simp
  have step2: "emitsOnly ?P
      (andThen (addAccumulated w args pid v2 uris)
         (\<lambda>v3. andThen (commitWindow w args window v3)
            (\<lambda>v4. andThen (emit (ProgressUpdate (c v4) n window Done))
                 (\<lambda>u. andThen (if sourceDelayMs args > 0 then emit (Delay (sourceDelayMs args))
                                else succeed ())
                         (\<lambda>u. succeed (x v4))))))" if "state v2 = state v" for v2 uris c x
    by (rule emitsOnly_andThen_obeys [OF addAccumulated_windowEvent addAccumulated_obeys])
       (rule step3, simp add: that)
  show ?thesis
    unfolding scrapeWindow_def Let_def split_def
    apply (rule emitsOnly_andThen)
     apply (rule emitsOnly_perform, simp add: windowEvent_def)
    apply (rule emitsOnly_andThen_obeys [OF _ processSongs_obeys])
     apply (rule emitsOnly_weaken [OF processSongs_events], erule songEvent_windowEvent)
    apply (rule step2)
    apply simp
    done
qed

lemma windowStep_events:
  "emitsOnly (windowEvent args (state v) window) (windowStep w args pid n window v)"
  unfolding windowStep_def Let_def
  by (intro emitsOnly_andThen emitsOnly_emit emitsOnly_readClock emitsOnly_liftResult
      emitsOnly_if emitsOnly_succeed scrapeWindow_events)
     (simp_all add: windowEvent_def)




lemma mark_then_processed:
  "isWindowAlreadyProcessed (markWindowProcessed st s d k) s d k"
  by (simp add: isWindowAlreadyProcessed_def markWindowProcessed_def Let_def)





subsection \<open>The statistics\<close>

lemma songStep_stats:
  assumes "songStep w d (i, song) (v, uris) t = (Inr (v', uris'), events)"
  shows "windowCounters (stats v') = windowCounters (stats v)
    \<and> songsClassified (stats v') = songsClassified (stats v) + 1
    \<and> length uris' \<le> length uris + 1"
proof (cases "recorded v (songKeyOf w song)")
  case True
  with assms show ?thesis
    by (auto simp: songStep_def recorded_def succeed_def Let_def windowCounters_def
        songsClassified_def split: if_splits)
next
  case False
  then have nk: "songKeyOf w song \<notin> runSeenSongKeys v"
    "songKeyOf w song \<notin> songKeys (playlistIndex v)"
    by (simp_all add: recorded_def)
  let ?pause = "if d > 0 \<and> i > 0 then emit (Delay d) else succeed ()"
  obtain e0 where pause: "?pause t = (Inr (), e0)"
    by (cases "d > 0 \<and> i > 0") (auto simp: emit_def perform_def succeed_def)
  obtain r1 e1 where find: "findTrackForSong w song (t + length e0) = (r1, e1)"
    by (cases "findTrackForSong w song (t + length e0)")
  from assms nk pause find obtain found where r1: "r1 = Inr found"
    by (cases r1) (auto simp: songStep_def Let_def andThen_def)
  from assms nk pause find r1 show ?thesis
    by (cases found)
       (auto simp: songStep_def Let_def andThen_def succeed_def windowCounters_def
          songsClassified_def split: if_splits)
qed

lemma processSongs_stats:
  "processSongs w d entries (v, uris) t = (Inr (v', uris'), events) \<Longrightarrow>
   windowCounters (stats v') = windowCounters (stats v)
   \<and> songsClassified (stats v') = songsClassified (stats v) + length entries"
proof (induction entries arbitrary: v uris t events)
  case Nil
  then show ?case by (simp add: succeed_def)
next
  case (Cons entry entries)
  obtain i song where entry: "entry = (i, song)" by (cases entry)
  from Cons.prems
  have "andThen (songStep w d entry (v, uris)) (processSongs w d entries) t
        = (Inr (v', uris'), events)" by simp
  then show ?case
  proof (cases rule: andThen_Inr)
    case (1 x e1 e2)
    obtain v1 uris1 where x: "x = (v1, uris1)" by (cases x)
    from songStep_stats [OF 1(1) [unfolded entry x]] Cons.IH [OF 1(2) [unfolded x]]
    show ?thesis by simp
  qed
qed

lemma scrapeWindow_stats:
  assumes "scrapeWindow w args pid n window v t = (Inr v', events)"
  shows "windowsPlanned (stats v') = windowsPlanned (stats v)
    \<and> windowsSkippedAlreadyDone (stats v') = windowsSkippedAlreadyDone (stats v)
    \<and> windowsSkippedFuture (stats v') = windowsSkippedFuture (stats v)
    \<and> windowsProcessed (stats v') = windowsProcessed (stats v) + 1
    \<and> windowsNotMarkedNotInPast (stats v') \<ge> windowsNotMarkedNotInPast (stats v)
    \<and> (dryRun args \<longrightarrow> windowsNotMarkedNotInPast (stats v') = windowsNotMarkedNotInPast (stats v)
                       \<and> tracksAdded (stats v') = tracksAdded (stats v))
    \<and> songsScraped (stats v') + songsClassified (stats v)
        = songsScraped (stats v) + songsClassified (stats v')
    \<and> length (filter scrapeEvent events) = 1"
  using assms
proof (cases rule: scrapeWindow_result)
  case (1 songs v2 uris e2 v3 e3 v4 e4)
  from processSongs_stats [OF 1(2)]
  have a: "windowCounters (stats v2) = windowCounters (stats (countScraped v (length songs)))"
    "songsClassified (stats v2) = songsClassified (stats v) + length songs"
    by (simp_all add: countScraped_def songsClassified_def)
  from addAccumulated_result [OF 1(3)]
  have b: "v3 = (if \<not> dryRun args \<and> uris \<noteq> []
                 then v2\<lparr>stats := (stats v2)\<lparr>tracksAdded := tracksAdded (stats v2) + length uris\<rparr>\<rparr>
                 else v2)" .
  note c = commitWindow_result [OF 1(4)]
  have e2: "filter scrapeEvent e2 = []"
    using emitsOnlyD [OF processSongs_events 1(2)]
    by (auto simp: filter_empty_conv list_all_iff songEvent_def scrapeEvent_def split: event.splits)
  have e3: "filter scrapeEvent e3 = []"
    using addAccumulated_events [OF 1(3)] by (auto simp: scrapeEvent_def)
  have e4: "filter scrapeEvent e4 = []"
    using c by (auto simp: scrapeEvent_def)
  have tail: "filter scrapeEvent (pausesAfter args) = []"
    by (simp add: pausesAfter_def scrapeEvent_def)
  have count: "length (filter scrapeEvent events) = 1"
    unfolding 1(6) by (simp add: e2 e3 e4 tail scrapeEvent_def)
  from a b c 1(5) count show ?thesis
    by (auto simp: windowCounters_def countScraped_def countProcessed_def songsClassified_def
        split: if_splits)
qed

subsection \<open>The request to add tracks\<close>

lemma concat_chunk: "0 < n \<Longrightarrow> concat (chunk xs n) = xs"
proof (induction xs n rule: chunk.induct)
  case (1 xs n)
  show ?case
  proof (cases "xs = []")
    case True
    then show ?thesis by (simp add: chunk.simps)
  next
    case False
    with 1 have "concat (chunk (drop n xs) n) = drop n xs" by simp
    with False 1(2) show ?thesis by (subst chunk.simps) simp
  qed
qed

lemma insert_chunks_at_top:
  "foldl insertItems playlistItems
     (map (\<lambda>chunkItem. \<lparr>payload_uris = chunkItem, payload_position = Some 0\<rparr>) (rev chunks))
   = concat chunks @ playlistItems"
  by (induction chunks) (simp_all add: insertItems_def)

lemma addTracks_at_top:
  "foldl insertItems playlistItems (addTracksPayloads uris (Some 0)) = uris @ playlistItems"
  by (simp add: addTracksPayloads_def Let_def insert_chunks_at_top concat_chunk)

lemma songStep_matched:
  assumes "songStep w d (i, song) (v, uris) t = (Inr (v', uris'), events)"
  shows "songsMatched (stats v') + length uris = songsMatched (stats v) + length uris'"
proof (cases "recorded v (songKeyOf w song)")
  case True
  with assms show ?thesis
    by (auto simp: songStep_def recorded_def succeed_def Let_def split: if_splits)
next
  case False
  then have nk: "songKeyOf w song \<notin> runSeenSongKeys v"
    "songKeyOf w song \<notin> songKeys (playlistIndex v)"
    by (simp_all add: recorded_def)
  let ?pause = "if d > 0 \<and> i > 0 then emit (Delay d) else succeed ()"
  obtain e0 where pause: "?pause t = (Inr (), e0)"
    by (cases "d > 0 \<and> i > 0") (auto simp: emit_def perform_def succeed_def)
  obtain r1 e1 where find: "findTrackForSong w song (t + length e0) = (r1, e1)"
    by (cases "findTrackForSong w song (t + length e0)")
  from assms nk pause find obtain found where r1: "r1 = Inr found"
    by (cases r1) (auto simp: songStep_def Let_def andThen_def)
  from assms nk pause find r1 show ?thesis
    by (cases found)
       (auto simp: songStep_def Let_def andThen_def succeed_def split: if_splits)
qed

lemma processSongs_matched:
  "processSongs w d entries (v, uris) t = (Inr (v', uris'), events) \<Longrightarrow>
   songsMatched (stats v') + length uris = songsMatched (stats v) + length uris'"
proof (induction entries arbitrary: v uris t events)
  case Nil
  then show ?case by (simp add: succeed_def)
next
  case (Cons entry entries)
  obtain i song where entry: "entry = (i, song)" by (cases entry)
  from Cons.prems
  have "andThen (songStep w d entry (v, uris)) (processSongs w d entries) t
        = (Inr (v', uris'), events)" by simp
  then show ?case
  proof (cases rule: andThen_Inr)
    case (1 x e1 e2)
    obtain v1 uris1 where x: "x = (v1, uris1)" by (cases x)
    from songStep_matched [OF 1(1) [unfolded entry x]] Cons.IH [OF 1(2) [unfolded x]]
    show ?thesis by simp
  qed
qed

subsection \<open>The playlist given on the command line\<close>




lemma andThen_Inr_eq:
  "m t = (Inr x, e1) \<Longrightarrow> f x (t + length e1) = (r, e2) \<Longrightarrow> andThen m f t = (r, e1 @ e2)"
  by (simp add: andThen_def)



subsection \<open>The command before its loop\<close>

lemma andThen_Inl_eq: "m t = (Inl e, e1) \<Longrightarrow> andThen m f t = (Inl e, e1)"
  by (simp add: andThen_def)

lemma andThen_succeed: "andThen (succeed x) f t = f x t"
  by (simp add: andThen_def succeed_def split: prod.splits)

lemma andThen_throw: "andThen (throw e) f t = (Inl e, [])"
  by (simp add: andThen_def throw_def)

lemma andThen_perform:
  "andThen (perform ev respond) f t =
     (case respond t of
        Inl e \<Rightarrow> (Inl e, [ev])
      | Inr x \<Rightarrow> (case f x (t + 1) of (r, events) \<Rightarrow> (r, ev # events)))"
  by (simp add: andThen_def perform_def split: sum.splits prod.splits)

lemma syncWindows_split:
  assumes "syncWindows w args pid st index0 t = (r, events)"
    and "0 < windowHours args"
  obtains windows rv ev where
    "buildWindows (timeFrom args) (timeTo args) (windowHours args) = Some windows"
    "processWindows w args pid (length windows) windows (startVars st index0 windows)
       (t + length (waitingUpdate windows)) = (rv, ev)"
    "events = waitingUpdate windows @ ev"
    "r = (case rv of Inl e \<Rightarrow> Inl e | Inr v \<Rightarrow> Inr (stats v))"
proof -
  let ?windows = "strideWindows (timeFrom args) (timeTo args) (windowHours args)"
  have bw: "buildWindows (timeFrom args) (timeTo args) (windowHours args) = Some ?windows"
    using assms(2) by (rule buildWindows_stride)
  obtain rv ev where pw:
    "processWindows w args pid (length ?windows) ?windows (startVars st index0 ?windows)
       (t + length (waitingUpdate ?windows)) = (rv, ev)"
    by (cases "processWindows w args pid (length ?windows) ?windows (startVars st index0 ?windows)
       (t + length (waitingUpdate ?windows))")
  let ?pre = "case ?windows of
                [] \<Rightarrow> succeed ()
              | firstWindow # others \<Rightarrow>
                  emit (ProgressUpdate 0 (length ?windows) firstWindow Waiting)"
  have pre: "?pre t = (Inr (), waitingUpdate ?windows)"
    by (cases ?windows) (simp_all add: succeed_def emit_def perform_def waitingUpdate_def)
  have loop: "andThen (processWindows w args pid (length ?windows) ?windows
                         (startVars st index0 ?windows)) (\<lambda>v. succeed (stats v))
                (t + length (waitingUpdate ?windows))
      = (case rv of Inl e \<Rightarrow> Inl e | Inr v \<Rightarrow> Inr (stats v), ev @ [])"
    using pw by (cases rv) (simp_all add: andThen_def succeed_def)
  have "syncWindows w args pid st index0 t
      = (case rv of Inl e \<Rightarrow> Inl e | Inr v \<Rightarrow> Inr (stats v), waitingUpdate ?windows @ ev)"
    unfolding syncWindows_def bw option.case Let_def startVars_def [symmetric]
    using andThen_Inr_eq
            [where m = ?pre
               and f = "\<lambda>u. andThen (processWindows w args pid (length ?windows) ?windows
                                      (startVars st index0 ?windows)) (\<lambda>v. succeed (stats v))",
             OF pre loop]
    by simp
  with assms(1) have "r = (case rv of Inl e \<Rightarrow> Inl e | Inr v \<Rightarrow> Inr (stats v))"
    "events = waitingUpdate ?windows @ ev"
    by simp_all
  with bw pw that show ?thesis by blast
qed

subsection \<open>The example run\<close>

lemma chooseBestTrack_example:
  "chooseBestTrack latin1Engine waterloo [waterlooSingle, waterlooAlbum] = Inr waterlooAlbum"
proof -
  have ne: "ascii ''single'' \<noteq> ascii ''album''" by (simp add: ascii_def)
  have "map (scoreCandidate latin1Engine (normalize latin1Engine (title waterloo))
               (normalize latin1Engine (artist waterloo))) [waterlooSingle, waterlooAlbum]
        = [\<lparr>track = waterlooSingle, score = 212\<rparr>, \<lparr>track = waterlooAlbum, score = 206\<rparr>]"
    by (simp add: scoreCandidate_specScore specScore_examples)
  then show ?thesis
    using ne by (simp add: chooseBestTrack_def Let_def pickBest_def release_examples)
qed

lemma chooseBestTrack_single: "chooseBestTrack js song [t] = Inr t"
  by (simp add: chooseBestTrack_def Let_def pickBest_def scoreCandidate_specScore
      split: option.splits)

lemma example_queries:
  "trim (joinWith (ascii '' '') [ascii ''track:'' @ title waterloo, ascii ''artist:'' @ artist waterloo])
   = ascii ''track:Waterloo artist:ABBA''"
  "trim (joinWith (ascii '' '') [ascii ''track:'' @ title fernando, ascii ''artist:'' @ artist fernando])
   = ascii ''track:Fernando artist:ABBA''"
  by (simp_all add: waterloo_def fernando_def trim_def ascii_def isWhiteSpace_def)

lemma example_world:
  "engine exampleWorld = latin1Engine"
  "nowAt exampleWorld t = \<lparr>year = 2026, month = 2, day = 25, hour = 9, minute = 30\<rparr>"
  "loadedState exampleWorld = exampleState"
  "saveStateResult exampleWorld t st = Inr ()"
  "getCurrentUser exampleWorld t = Inr \<lparr>user_id = ascii ''me''\<rparr>"
  "getPlaylistMeta exampleWorld t p = Inr \<lparr>meta_id = p, meta_name = ascii ''Radio'',
                                     owner_id = ascii ''me'', collaborative = False\<rparr>"
  "getPlaylistTrackIndex exampleWorld t p = Inr \<lparr>trackIds = {}, songKeys = {}\<rparr>"
  "scrapeSongsFromSource exampleWorld t u = Inr [waterloo, fernando, waterloo]"
  "searchTracks exampleWorld t (ascii ''track:Fernando artist:ABBA'') l = Inr [fernandoTrack]"
  "searchTracks exampleWorld t (ascii ''track:Waterloo artist:ABBA'') l
     = Inr [waterlooSingle, waterlooAlbum]"
  "addTracksToPlaylist exampleWorld t p us pos = Inr ()"
  by (simp_all add: exampleWorld_def) (simp add: ascii_def)

lemma example_date:
  "parseInputDate (ascii ''24-02-2026'') = Inr \<lparr>day_in = 24, month_in = 2, year_in = 2026\<rparr>"
  by (simp add: parseInputDate_def ascii_def isDigit_def parseDigits_def utcRoundTrip_def
      daysInMonth_def isLeapYear_def)

lemma example_now:
  "isWindowFullyInFutureInWarsaw \<lparr>year = 2026, month = 2, day = 25, hour = 9, minute = 30\<rparr>
     (ascii ''24-02-2026'') h = Inr False"
  "isWindowFullyInPastInWarsaw \<lparr>year = 2026, month = 2, day = 25, hour = 9, minute = 30\<rparr>
     (ascii ''24-02-2026'') h = Inr True"
  by (simp_all add: isWindowFullyInFutureInWarsaw_def isWindowFullyInPastInWarsaw_def
      example_date dateKey_def)

lemma example_windows: "buildWindows 7 9 2 = Some [exampleWindow]"
proof -
  have "strideWindows 7 9 2 = [exampleWindow]"
    by (simp add: strideWindows_def strideCount_def strideWindow_def exampleWindow_def)
  then show ?thesis using buildWindows_stride [of 2 7 9] by simp
qed

lemma example_find:
  "findTrackForSong exampleWorld waterloo t
   = (Inr (Some waterlooAlbum), [SearchTracks (ascii ''track:Waterloo artist:ABBA'') 10])"
  "findTrackForSong exampleWorld fernando t
   = (Inr (Some fernandoTrack), [SearchTracks (ascii ''track:Fernando artist:ABBA'') 10])"
proof -
  have ne: "title waterloo \<noteq> []" "artist waterloo \<noteq> []" "title fernando \<noteq> []"
    "artist fernando \<noteq> []"
    "ascii ''track:Waterloo artist:ABBA'' \<noteq> []" "ascii ''track:Fernando artist:ABBA'' \<noteq> []"
    by (simp_all add: waterloo_def fernando_def ascii_def)
  show "findTrackForSong exampleWorld waterloo t
   = (Inr (Some waterlooAlbum), [SearchTracks (ascii ''track:Waterloo artist:ABBA'') 10])"
    using ne
    by (simp add: findTrackForSong_def Let_def example_queries [simplified] example_world
        andThen_def perform_def liftResult_def succeed_def chooseBestTrack_example)
  show "findTrackForSong exampleWorld fernando t
   = (Inr (Some fernandoTrack), [SearchTracks (ascii ''track:Fernando artist:ABBA'') 10])"
    using ne
    by (simp add: findTrackForSong_def Let_def example_queries [simplified] example_world
        andThen_def perform_def liftResult_def succeed_def chooseBestTrack_single)
qed

lemma example_keys:
  "songKeyOf exampleWorld waterloo = ascii ''abba|waterloo''"
  "songKeyOf exampleWorld fernando = ascii ''abba|fernando''"
  "matchedSongKeyOf exampleWorld waterlooAlbum = ascii ''abba|waterloo remastered''"
  "matchedSongKeyOf exampleWorld fernandoTrack = ascii ''abba|fernando''"
proof -
  have f: "normalize latin1Engine (ascii ''Fernando'') = ascii ''fernando''"
    by (simp add: normalize_defs class_defs latin1_defs)
  show "songKeyOf exampleWorld waterloo = ascii ''abba|waterloo''"
    by (simp add: songKeyOf_def buildSongKey_def example_world normalize_examples)
       (simp add: ascii_def)
  show "songKeyOf exampleWorld fernando = ascii ''abba|fernando''"
    by (simp add: songKeyOf_def buildSongKey_def example_world fernando_def normalize_strings f)
       (simp add: ascii_def)
  show "matchedSongKeyOf exampleWorld waterlooAlbum = ascii ''abba|waterloo remastered''"
    by (simp add: matchedSongKeyOf_def buildSongKey_def example_world waterlooAlbum_def
        normalize_strings)
       (simp add: ascii_def)
  show "matchedSongKeyOf exampleWorld fernandoTrack = ascii ''abba|fernando''"
    by (simp add: matchedSongKeyOf_def buildSongKey_def example_world fernandoTrack_def
        normalize_strings f)
       (simp add: ascii_def)
qed

lemma example_distinct:
  "songKeyOf exampleWorld fernando \<noteq> songKeyOf exampleWorld waterloo"
  "songKeyOf exampleWorld fernando \<noteq> matchedSongKeyOf exampleWorld waterlooAlbum"
  "track_id fernandoTrack \<noteq> track_id waterlooAlbum"
  unfolding example_keys by (simp_all add: fernandoTrack_def waterlooAlbum_def ascii_def)

lemma example_step_waterloo:
  assumes "songKeyOf exampleWorld waterloo \<notin> runSeenSongKeys v"
    and "songKeyOf exampleWorld waterloo \<notin> songKeys (playlistIndex v)"
    and "track_id waterlooAlbum \<notin> trackIds (playlistIndex v)"
  shows "songStep exampleWorld 0 (i, waterloo) (v, uris) t
   = (Inr (v\<lparr>runSeenSongKeys := insert (songKeyOf exampleWorld waterloo) (runSeenSongKeys v),
              playlistIndex := (playlistIndex v)
                \<lparr>trackIds := insert (track_id waterlooAlbum) (trackIds (playlistIndex v)),
                 songKeys := insert (matchedSongKeyOf exampleWorld waterlooAlbum)
                               (insert (songKeyOf exampleWorld waterloo)
                                  (songKeys (playlistIndex v)))\<rparr>,
              stats := (stats v)\<lparr>songsMatched := songsMatched (stats v) + 1\<rparr>\<rparr>,
           uris @ [uri waterlooAlbum]),
      [SearchTracks (ascii ''track:Waterloo artist:ABBA'') 10])"
  using assms
  by (simp add: songStep_def Let_def andThen_def succeed_def example_find)

lemma example_step_fernando:
  assumes "songKeyOf exampleWorld fernando \<notin> runSeenSongKeys v"
    and "songKeyOf exampleWorld fernando \<notin> songKeys (playlistIndex v)"
    and "track_id fernandoTrack \<notin> trackIds (playlistIndex v)"
  shows "songStep exampleWorld 0 (i, fernando) (v, uris) t
   = (Inr (v\<lparr>runSeenSongKeys := insert (songKeyOf exampleWorld fernando) (runSeenSongKeys v),
              playlistIndex := (playlistIndex v)
                \<lparr>trackIds := insert (track_id fernandoTrack) (trackIds (playlistIndex v)),
                 songKeys := insert (matchedSongKeyOf exampleWorld fernandoTrack)
                               (insert (songKeyOf exampleWorld fernando)
                                  (songKeys (playlistIndex v)))\<rparr>,
              stats := (stats v)\<lparr>songsMatched := songsMatched (stats v) + 1\<rparr>\<rparr>,
           uris @ [uri fernandoTrack]),
      [SearchTracks (ascii ''track:Fernando artist:ABBA'') 10])"
  using assms
  by (simp add: songStep_def Let_def andThen_def succeed_def example_find)

lemma example_step_duplicate:
  assumes "songKeyOf exampleWorld song \<in> runSeenSongKeys v"
  shows "songStep exampleWorld d (i, song) (v, uris) t
   = (Inr (v\<lparr>stats := (stats v)\<lparr>songsDuplicateSkipped := songsDuplicateSkipped (stats v) + 1\<rparr>\<rparr>,
           uris), [])"
  using assms by (simp add: songStep_def Let_def succeed_def)

lemmas example_steps = example_step_waterloo example_step_fernando example_step_duplicate
  example_distinct


lemma example_third:
  "songStep exampleWorld 0 (i, waterloo) (exampleHeard, exampleUris) t
   = (Inr (exampleHeard\<lparr>stats := (stats exampleHeard)\<lparr>songsDuplicateSkipped := 1\<rparr>\<rparr>, exampleUris),
      [])"
  by (simp add: example_steps exampleHeard_def exampleVars_def emptyStats_def)


lemma example_windowKey: "windowKeyOf exampleWindow = ascii ''7-9''"
  by (simp add: windowKeyOf_def exampleWindow_def showInt_def digitsOf.simps ascii_def)

lemma example_not_processed:
  "\<not> isWindowAlreadyProcessed exampleState s d k"
  by (simp add: isWindowAlreadyProcessed_def exampleState_def)

lemma example_args_dry:
  "stationId (exampleArgs\<lparr>dryRun := b\<rparr>) = ascii ''40''"
  "date (exampleArgs\<lparr>dryRun := b\<rparr>) = ascii ''24-02-2026''"
  "timeFrom (exampleArgs\<lparr>dryRun := b\<rparr>) = 7" "timeTo (exampleArgs\<lparr>dryRun := b\<rparr>) = 9"
  "windowHours (exampleArgs\<lparr>dryRun := b\<rparr>) = 2"
  "sourceDelayMs (exampleArgs\<lparr>dryRun := b\<rparr>) = 0"
  "spotifyDelayMs (exampleArgs\<lparr>dryRun := b\<rparr>) = 0"
  "dryRun (exampleArgs\<lparr>dryRun := b\<rparr>) = b" "force (exampleArgs\<lparr>dryRun := b\<rparr>) = False"
  "playlist (exampleArgs\<lparr>dryRun := b\<rparr>) = None"
  by (simp_all add: exampleArgs_def)

lemma example_scrapeWindow:
  "scrapeWindow exampleWorld (exampleArgs\<lparr>dryRun := b\<rparr>) (ascii ''pl1'') n exampleWindow
     exampleVars t
   = (Inr (exampleDone b), exampleWindowEvents b n)"
proof -
  have win: "from_hour exampleWindow = 7" "to_hour exampleWindow = 9"
    by (simp_all add: exampleWindow_def)
  show ?thesis
    unfolding scrapeWindow_def Let_def
    by (simp add: example_args_dry example_world buildSourceUrl_def andThen_def perform_def
        example_steps addAccumulated_def commitWindow_def succeed_def readClock_def
        liftResult_def example_now saveState_def Let_def emit_def win exampleMatching_def
        exampleMarked_def exampleStats_def emptyStats_def exampleVars_def example_windowKey
        exampleDone_def exampleHeard_def exampleWindowEvents_def exampleCommit_def
        exampleUris_def)
qed

lemma example_vars:
  "state exampleVars = exampleState" "completedWindows exampleVars = 0"
  by (simp_all add: exampleVars_def)

lemma example_windowStep:
  "windowStep exampleWorld (exampleArgs\<lparr>dryRun := b\<rparr>) (ascii ''pl1'') n exampleWindow
     exampleVars t
   = (Inr (exampleDone b),
      ProgressUpdate 0 n exampleWindow Scraping # exampleWindowEvents b n)"
  unfolding windowStep_def
  by (simp add: example_args_dry example_vars example_now example_world example_not_processed
      example_scrapeWindow andThen_def emit_def perform_def readClock_def liftResult_def)

lemma example_mapped:
  "stationPlaylists exampleState (ascii ''40'') = Some (ascii ''pl1'')"
  "stationPlaylists exampleMarked (ascii ''40'') = Some (ascii ''pl1'')"
  "ascii ''pl1'' \<noteq> []"
  by (simp_all add: exampleState_def exampleMarked_def markWindowProcessed_def Let_def ascii_def)

lemma example_run:
  "runSyncCommand exampleWorld (exampleArgs\<lparr>dryRun := b\<rparr>) 0
   = (Inr (exampleStats (if b then 0 else 2)),
      examplePrologue @ ProgressUpdate 0 1 exampleWindow Scraping # exampleWindowEvents b 1)"
proof -
  let ?args = "exampleArgs\<lparr>dryRun := b\<rparr>"
  have v0: "\<lparr>state = exampleState, playlistIndex = \<lparr>trackIds = {}, songKeys = {}\<rparr>,
             stats = emptyStats\<lparr>windowsPlanned := length [exampleWindow]\<rparr>,
             runSeenSongKeys = {}, completedWindows = 0\<rparr> = exampleVars"
    by (simp add: exampleVars_def)
  have fin: "stats (exampleDone b) = exampleStats (if b then 0 else 2)"
    by (simp add: exampleDone_def)
  have sync: "syncWindows exampleWorld ?args (ascii ''pl1'') exampleState
                \<lparr>trackIds = {}, songKeys = {}\<rparr> t
      = (Inr (exampleStats (if b then 0 else 2)),
         ProgressUpdate 0 1 exampleWindow Waiting # ProgressUpdate 0 1 exampleWindow Scraping
         # exampleWindowEvents b 1)" for t
    unfolding syncWindows_def example_args_dry example_windows option.case Let_def list.case v0
    by (simp add: example_windowStep andThen_def emit_def perform_def succeed_def fin)
  show ?thesis
    unfolding runSyncCommand_def
    by (simp add: example_args_dry example_date example_world andThen_def liftResult_def
        loadState_def mapPlaylist_def emit_def perform_def succeed_def example_mapped sync
        canCurrentUserWritePlaylist_def examplePrologue_def)
qed

lemma example_after:
  "engine exampleAfter = latin1Engine"
  "nowAt exampleAfter t = \<lparr>year = 2026, month = 2, day = 25, hour = 9, minute = 30\<rparr>"
  "loadedState exampleAfter = exampleMarked"
  "saveStateResult exampleAfter t st = Inr ()"
  "getCurrentUser exampleAfter t = Inr \<lparr>user_id = ascii ''me''\<rparr>"
  "getPlaylistMeta exampleAfter t p = Inr \<lparr>meta_id = p, meta_name = ascii ''Radio'',
                                     owner_id = ascii ''me'', collaborative = False\<rparr>"
  "getPlaylistTrackIndex exampleAfter t p = Inr \<lparr>trackIds = {}, songKeys = {}\<rparr>"
  by (simp_all add: exampleAfter_def exampleWorld_def)

lemma example_marked:
  "isWindowAlreadyProcessed exampleMarked (ascii ''40'') (ascii ''24-02-2026'')
     (windowKeyOf exampleWindow)"
  unfolding exampleMarked_def by (rule mark_then_processed)

lemma example_second_run:
  "runSyncCommand exampleAfter (exampleArgs\<lparr>dryRun := b\<rparr>) 0
   = (Inr (emptyStats\<lparr>windowsPlanned := 1, windowsSkippedAlreadyDone := 1\<rparr>),
      examplePrologue
      @ [ProgressUpdate 0 1 exampleWindow Scraping, ProgressUpdate 1 1 exampleWindow Skipped])"
proof -
  let ?args = "exampleArgs\<lparr>dryRun := b\<rparr>"
  have step: "windowStep exampleAfter ?args (ascii ''pl1'') n exampleWindow v t
     = (Inr (countAlreadyDone v),
        [ProgressUpdate (completedWindows v) n exampleWindow Scraping,
         ProgressUpdate (completedWindows v + 1) n exampleWindow Skipped])"
    if "state v = exampleMarked" for v n t
    unfolding windowStep_def
    by (simp add: example_args_dry that example_now example_after example_marked
        andThen_def emit_def perform_def readClock_def liftResult_def succeed_def
        countAlreadyDone_def)
  have sync: "syncWindows exampleAfter ?args (ascii ''pl1'') exampleMarked
                \<lparr>trackIds = {}, songKeys = {}\<rparr> t
      = (Inr (emptyStats\<lparr>windowsPlanned := 1, windowsSkippedAlreadyDone := 1\<rparr>),
         [ProgressUpdate 0 1 exampleWindow Waiting, ProgressUpdate 0 1 exampleWindow Scraping,
          ProgressUpdate 1 1 exampleWindow Skipped])" for t
    unfolding syncWindows_def example_args_dry example_windows option.case Let_def list.case
    by (simp add: step andThen_def emit_def perform_def succeed_def countAlreadyDone_def
        emptyStats_def)
  show ?thesis
    unfolding runSyncCommand_def
    by (simp add: example_args_dry example_date example_after andThen_def liftResult_def
        loadState_def mapPlaylist_def emit_def perform_def succeed_def example_mapped sync
        canCurrentUserWritePlaylist_def examplePrologue_def)
qed

lemma example_args:
  "stationId exampleArgs = ascii ''40''" "date exampleArgs = ascii ''24-02-2026''"
  "timeFrom exampleArgs = 7" "timeTo exampleArgs = 9" "windowHours exampleArgs = 2"
  "sourceDelayMs exampleArgs = 0" "spotifyDelayMs exampleArgs = 0"
  "dryRun exampleArgs = False" "force exampleArgs = False" "playlist exampleArgs = None"
  by (simp_all add: exampleArgs_def)


subsection \<open>Duplicate suppression\<close>



subsection \<open>The request to add tracks, as the command makes it\<close>

text \<open>
  Claim C8. When a window has been scraped and its songs handled, the tracks
  accumulated are as many as the songs counted as matched. Unless the run is a dry run
  or no track was accumulated, the events of the window hold exactly one request to add
  tracks: the accumulated identifiers in reverse order, at position 0 of the mapped
  playlist; otherwise they hold none. The client sends such a request in runs of a
  hundred, last run first, each at position 0, so the playlist then begins with the
  requested identifiers in the requested order, above what it held.
\<close>

theorem adds_reversed_at_top:
  assumes "scrapeWindow w args pid n window v t = (Inr v', events)"
  shows "\<exists>songs v2 uris e2.
           scrapeSongsFromSource w t
             (buildSourceUrl (stationId args) (date args) (from_hour window) (to_hour window))
             = Inr songs
         \<and> processSongs w (spotifyDelayMs args) (enumerate 0 songs)
             (countScraped v (length songs), []) (t + 1) = (Inr (v2, uris), e2)
         \<and> songsMatched (stats v') = songsMatched (stats v) + length uris
         \<and> filter addEvent events
             = (if \<not> dryRun args \<and> uris \<noteq> []
                then [AddTracksToPlaylist pid (rev uris) (Some 0)] else [])
         \<and> foldl insertItems playlistItems (addTracksPayloads (rev uris) (Some 0))
             = rev uris @ playlistItems"
  using assms
proof (cases rule: scrapeWindow_result)
  case (1 songs v2 uris e2 v3 e3 v4 e4)
  have e2: "filter addEvent e2 = []"
    using emitsOnlyD [OF processSongs_events 1(2)]
    by (auto simp: filter_empty_conv list_all_iff songEvent_def addEvent_def split: event.splits)
  note e3 = addAccumulated_events [OF 1(3)]
  have e4: "filter addEvent e4 = []"
    using commitWindow_result [OF 1(4)] by (auto simp: addEvent_def)
  have tail: "filter addEvent (pausesAfter args) = []"
    by (simp add: pausesAfter_def addEvent_def)
  have adds: "filter addEvent events
             = (if \<not> dryRun args \<and> uris \<noteq> []
                then [AddTracksToPlaylist pid (rev uris) (Some 0)] else [])"
    unfolding 1(6) by (simp add: e2 e3 e4 tail addEvent_def)
  have "songsMatched (stats v2) = songsMatched (stats v) + length uris"
    using processSongs_matched [OF 1(2)] by (simp add: countScraped_def)
  moreover have "songsMatched (stats v3) = songsMatched (stats v2)"
    using addAccumulated_result [OF 1(3)] by simp
  moreover have "songsMatched (stats v4) = songsMatched (stats v3)"
    using commitWindow_result [OF 1(4)] by auto
  ultimately have matched: "songsMatched (stats v') = songsMatched (stats v) + length uris"
    using 1(5) by (simp add: countProcessed_def)
  from 1(1,2) matched adds addTracks_at_top [of playlistItems "rev uris"]
  show ?thesis by blast
qed

theorem adds_reversed_at_top_witness:
  "scrapeWindow exampleWorld exampleArgs (ascii ''pl1'') 1 exampleWindow exampleVars 6
     = (Inr (exampleDone False), exampleWindowEvents False 1)
   \<and> exampleUris = [ascii ''spotify:track:a1'', ascii ''spotify:track:f1'']
   \<and> filter addEvent (exampleWindowEvents False 1)
       = [AddTracksToPlaylist (ascii ''pl1'')
            [ascii ''spotify:track:f1'', ascii ''spotify:track:a1''] (Some 0)]
   \<and> songsMatched (stats (exampleDone False)) = songsMatched (stats exampleVars) + 2"
proof -
  have args: "exampleArgs\<lparr>dryRun := False\<rparr> = exampleArgs"
    by (simp add: exampleArgs_def)
  note run = example_scrapeWindow [of False 1 6, unfolded args]
  have uris: "exampleUris = [ascii ''spotify:track:a1'', ascii ''spotify:track:f1'']"
    by (simp add: exampleUris_def waterlooAlbum_def fernandoTrack_def)
  from adds_reversed_at_top [OF run]
  obtain songs v2 uris e2 where
    songs: "scrapeSongsFromSource exampleWorld 6
             (buildSourceUrl (stationId exampleArgs) (date exampleArgs) (from_hour exampleWindow)
                (to_hour exampleWindow)) = Inr songs"
    and songs2: "processSongs exampleWorld (spotifyDelayMs exampleArgs) (enumerate 0 songs)
             (countScraped exampleVars (length songs), []) (6 + 1) = (Inr (v2, uris), e2)"
    and matched: "songsMatched (stats (exampleDone False)) = songsMatched (stats exampleVars) + length uris"
    and adds: "filter addEvent (exampleWindowEvents False 1)
             = (if \<not> dryRun exampleArgs \<and> uris \<noteq> []
                then [AddTracksToPlaylist (ascii ''pl1'') (rev uris) (Some 0)] else [])"
    by blast
  from songs have "songs = [waterloo, fernando, waterloo]" by (simp add: example_world)
  with songs2 have "uris = exampleUris"
    by (simp add: example_args andThen_def succeed_def example_steps countScraped_def
        exampleVars_def emptyStats_def exampleUris_def)
  then have u: "uris = [ascii ''spotify:track:a1'', ascii ''spotify:track:f1'']"
    by (simp only: uris)
  have "filter addEvent (exampleWindowEvents False 1)
       = [AddTracksToPlaylist (ascii ''pl1'')
            [ascii ''spotify:track:f1'', ascii ''spotify:track:a1''] (Some 0)]"
    using adds unfolding u by (simp add: example_args)
  moreover have "songsMatched (stats (exampleDone False)) = songsMatched (stats exampleVars) + 2"
    using matched unfolding u by simp
  ultimately show ?thesis using run uris by (simp only: simp_thms)
qed

subsection \<open>The playlist given on the command line, saved first\<close>



end
